theory Spec2Isabelle
  imports Main "HOL-Library.AList" "HOL-Library.Word"
begin

section \<open>Python values\<close>

text \<open>
  The repository is dynamically typed Python: attribute names are strings, a payload is a
  pydantic schema, a table row is an instance of a SQLModel class, and \<open>get_by\<close> returns an
  instance, \<open>None\<close> or a list. One datatype of values carries all of them.
\<close>

datatype OrderStatus = created | processing | shipped | delivered | canceled

text \<open>The three table classes of \<open>models.py\<close> (\<open>table=True\<close>).\<close>

datatype kind = Product | Order | OrderItem

type_synonym uuid = nat

datatype pyval =
    PNone
  | PBool bool
  | PInt int
  | PFloat "64 word"
  | PStr string
  | PUuid uuid
  | PDatetime nat
  | PStatus OrderStatus
  | PList "pyval list"
  | PSet "pyval list"
  | PDict "(string \<times> pyval) list"
  | PSchema "(string \<times> pyval) list" "string list"
  | PObj kind "(string \<times> pyval) list"
  | PRef kind pyval

text \<open>
  \<open>PFloat\<close> holds the bits of an IEEE double. \<open>PSet xs\<close> lists the elements of a set in its
  iteration order. \<open>PDict\<close> is a dict in insertion order. \<open>PSchema fs set\<close> is an instance
  of a pydantic schema: its fields in declaration order and \<open>model_fields_set\<close>.
  \<open>PObj k a\<close> is an instance of table class \<open>k\<close> with the attributes \<open>a\<close>.
  \<open>PRef k i\<close> is the instance of \<open>k\<close> whose primary key is \<open>i\<close>, held by reference: the
  back-reference of a child holds its parent, which holds the child, and a value cannot
  contain itself. It arises only as the back-reference that the constructor of \<open>Order\<close> sets;
  no payload holds one.
\<close>

type_synonym attrs = "(string \<times> pyval) list"

text \<open>Python's truth value of an object, as \<open>not x\<close> and \<open>if x\<close> use it.\<close>

fun truthy :: "pyval \<Rightarrow> bool" where
  "truthy PNone = False"
| "truthy (PBool b) = b"
| "truthy (PInt i) = (i \<noteq> 0)"
| "truthy (PFloat w) = (push_bit 1 w \<noteq> 0)"
| "truthy (PStr s) = (s \<noteq> [])"
| "truthy (PUuid u) = True"
| "truthy (PDatetime t) = True"
| "truthy (PStatus s) = True"
| "truthy (PList xs) = (xs \<noteq> [])"
| "truthy (PSet xs) = (xs \<noteq> [])"
| "truthy (PDict kvs) = (kvs \<noteq> [])"
| "truthy (PSchema fs st) = True"
| "truthy (PObj k a) = True"
| "truthy (PRef k i) = True"

fun isinstance_set :: "pyval \<Rightarrow> bool" where
  "isinstance_set (PSet xs) = True"
| "isinstance_set v = False"

datatype error =
    TypeError string
  | AttributeError string
  | ValueError string
  | HTTPException nat string
  | MultipleResultsFound
  | InvalidRequestError
  | UnmappedInstanceError
  | IntegrityError


section \<open>The table classes of \<open>models.py\<close>\<close>

text \<open>
  The fields of each table class in pydantic's declaration order (base classes first).
  The field \<open>id\<close> comes from \<open>IdMixin\<close>.
\<close>

fun columns :: "kind \<Rightarrow> string list" where
  "columns Product = [''name'', ''description'', ''price'', ''amount'', ''id'']"
| "columns Order = [''id'', ''creation_date'', ''status'']"
| "columns OrderItem = [''amount'', ''id'', ''order_id'', ''product_id'']"

fun class_name :: "kind \<Rightarrow> string" where
  "class_name Product = ''Product''"
| "class_name Order = ''Order''"
| "class_name OrderItem = ''OrderItem''"

text \<open>
  A \<open>Relationship(...)\<close> of a table class: its attribute name, the class at the other end,
  the foreign key column of the child table, whether the attribute is a collection, and
  whether its cascade contains \<open>delete\<close> (\<open>"cascade": "all"\<close> on \<open>Order.order_items\<close> only).
\<close>

record relationship =
  r_name :: string
  r_target :: kind
  r_fk :: string
  r_to_many :: bool
  r_delete_cascade :: bool

fun relationships :: "kind \<Rightarrow> relationship list" where
  "relationships Product =
     [\<lparr>r_name = ''order_items'', r_target = OrderItem, r_fk = ''product_id'',
       r_to_many = True, r_delete_cascade = False\<rparr>]"
| "relationships Order =
     [\<lparr>r_name = ''order_items'', r_target = OrderItem, r_fk = ''order_id'',
       r_to_many = True, r_delete_cascade = True\<rparr>]"
| "relationships OrderItem =
     [\<lparr>r_name = ''order'', r_target = Order, r_fk = ''order_id'',
       r_to_many = False, r_delete_cascade = False\<rparr>,
      \<lparr>r_name = ''product'', r_target = Product, r_fk = ''product_id'',
       r_to_many = False, r_delete_cascade = False\<rparr>]"

text \<open>\<open>Field(foreign_key=...)\<close>: the column and the table whose \<open>id\<close> it references.\<close>

fun foreign_keys :: "kind \<Rightarrow> (string \<times> kind) list" where
  "foreign_keys OrderItem = [(''order_id'', Order), (''product_id'', Product)]"
| "foreign_keys k = []"

text \<open>
  The columns that are \<open>NOT NULL\<close>: those declared \<open>nullable=False\<close>, the primary key, and
  \<open>creation_date\<close>, whose type has no \<open>None\<close>. \<open>order_id\<close> and \<open>product_id\<close> are declared
  \<open>UUID | None\<close> and are nullable.
\<close>

fun not_null_columns :: "kind \<Rightarrow> string list" where
  "not_null_columns Product = [''name'', ''description'', ''price'', ''amount'', ''id'']"
| "not_null_columns Order = [''id'', ''creation_date'', ''status'']"
| "not_null_columns OrderItem = [''amount'', ''id'']"

datatype default = NoDefault | Default pyval | FactoryUuid4 | FactoryNow

text \<open>
  Modelled from the spec: \<open>IdMixin\<close> of \<open>shopAPI.database\<close> is not among the sources; the
  spec gives every entity an \<open>id\<close>, a unique identifier generated at creation, so the field
  \<open>id\<close> has a factory default drawing a fresh UUID. The other defaults are those of
  \<open>models.py\<close>.
\<close>

definition field_default :: "kind \<Rightarrow> string \<Rightarrow> default" where
  "field_default k f =
     (if f = ''id'' then FactoryUuid4
      else if k = Order \<and> f = ''creation_date'' then FactoryNow
      else if k = Order \<and> f = ''status'' then Default (PStatus created)
      else NoDefault)"

section \<open>The session and the store\<close>

text \<open>
  The state a call runs in: the rows of each table, the supply of \<open>uuid4()\<close> with the number
  of draws made so far, and the clock read by \<open>datetime.now\<close>.
\<close>

record world =
  db :: "kind \<Rightarrow> attrs list"
  uuid4 :: "nat \<Rightarrow> uuid"
  drawn :: nat
  now :: nat

definition draw_uuid :: "world \<Rightarrow> uuid \<times> world" where
  "draw_uuid w = (uuid4 w (drawn w), w\<lparr>drawn := Suc (drawn w)\<rparr>)"

text \<open>Reading a column of a row or an attribute of an instance; an unset one reads \<open>None\<close>.\<close>

definition col :: "attrs \<Rightarrow> string \<Rightarrow> pyval" where
  "col a k = (case map_of a k of None \<Rightarrow> PNone | Some v \<Rightarrow> v)"

text \<open>
  A \<open>select\<close> of a table class: the conditions of its \<open>where\<close> and the relationships it
  loads eagerly by a join in the same statement.
\<close>

record query =
  q_model :: kind
  q_where :: "(string \<times> pyval) list"
  q_joins :: "string list"

definition select :: "kind \<Rightarrow> query" where
  "select k = \<lparr>q_model = k, q_where = [], q_joins = []\<rparr>"

definition matches :: "(string \<times> pyval) list \<Rightarrow> attrs \<Rightarrow> bool" where
  "matches cond r = list_all (\<lambda>fv. col r (fst fv) = snd fv) cond"

text \<open>
  The number of result rows a parent row gives once the relationship \<open>name\<close> is joined: one
  for each child of a collection (and one when there is none), one otherwise.
\<close>

definition fan_out :: "(kind \<Rightarrow> attrs list) \<Rightarrow> kind \<Rightarrow> string \<Rightarrow> attrs \<Rightarrow> nat" where
  "fan_out d k name r =
     (case find (\<lambda>rel. r_name rel = name) (relationships k) of
        None \<Rightarrow> 1
      | Some rel \<Rightarrow>
          if r_to_many rel
          then max 1 (length (filter (\<lambda>c. col r ''id'' \<noteq> PNone \<and> col c (r_fk rel) = col r ''id'')
                                     (d (r_target rel))))
          else 1)"

definition join_rows :: "(kind \<Rightarrow> attrs list) \<Rightarrow> kind \<Rightarrow> string \<Rightarrow> attrs list \<Rightarrow> attrs list" where
  "join_rows d k name rows = concat (map (\<lambda>r. replicate (fan_out d k name r) r) rows)"

text \<open>
  The rows the store returns for a query, each as an instance of the queried class; the
  join of an eager load is a left outer join, so a parent without children keeps its row.
\<close>

definition rows_of :: "(kind \<Rightarrow> attrs list) \<Rightarrow> query \<Rightarrow> pyval list" where
  "rows_of d q =
     map (PObj (q_model q))
       (fold (join_rows d (q_model q)) (q_joins q) (filter (matches (q_where q)) (d (q_model q))))"

text \<open>
  Whether the query loads a collection by a join. The result of such a query refuses to give
  rows before \<open>unique()\<close> is called on it.
\<close>

definition joined_collection :: "query \<Rightarrow> bool" where
  "joined_collection q =
     list_ex (\<lambda>name. case find (\<lambda>rel. r_name rel = name) (relationships (q_model q)) of
                       None \<Rightarrow> False
                     | Some rel \<Rightarrow> r_to_many rel)
       (q_joins q)"

text \<open>
  The identity of an instance in the session is its primary key. \<open>Result.unique()\<close> keeps the
  first row of each identity, remembering the identities seen so far.
\<close>

fun obj_id :: "pyval \<Rightarrow> pyval" where
  "obj_id (PObj k a) = col a ''id''"
| "obj_id v = v"

fun unique_rows :: "pyval list \<Rightarrow> pyval list \<Rightarrow> pyval list" where
  "unique_rows seen [] = []"
| "unique_rows seen (x # xs) =
     (if obj_id x \<in> set seen then unique_rows seen xs
      else x # unique_rows (obj_id x # seen) xs)"


section \<open>\<open>BaseCRUD\<close>: reading\<close>

text \<open>
  An instance of \<open>BaseCRUD\<close> or of a subclass: the table class it was built for and its
  attributes whose names start with \<open>_join_\<close>, by attribute name. \<open>BaseCRUD\<close> defines none;
  each subclass defines one per relationship it can load, a function from query to query.
  A name cannot begin or end with an underscore here, so the methods \<open>_query\<close>, \<open>_all\<close>,
  \<open>_all_unique\<close>, \<open>_one_or_none\<close>, \<open>_get_by\<close>, \<open>_optional_join\<close> and \<open>_add_join_to_query\<close>
  are \<open>prv_query\<close>, \<open>prv_all\<close> and so on, and the parameter \<open>join_\<close> is \<open>join_arg\<close>.
\<close>

record crud =
  model_class :: kind
  join_methods :: "string \<Rightarrow> (query \<Rightarrow> query) option"

text \<open>\<open>functools.reduce(f, xs, initial)\<close>, stopping at the first exception.\<close>

fun reduce :: "('a \<Rightarrow> 'b \<Rightarrow> error + 'a) \<Rightarrow> 'b list \<Rightarrow> 'a \<Rightarrow> error + 'a" where
  "reduce f [] acc = Inr acc"
| "reduce f (x # xs) acc = (case f acc x of Inl e \<Rightarrow> Inl e | Inr acc' \<Rightarrow> reduce f xs acc')"

text \<open>
  \<open>getattr(self, "_join_" + join_)(query)\<close>: the concatenation raises \<open>TypeError\<close> when
  \<open>join_\<close> is not a string, \<open>getattr\<close> raises \<open>AttributeError\<close> when there is no such attribute.
\<close>

definition prv_add_join_to_query :: "crud \<Rightarrow> query \<Rightarrow> pyval \<Rightarrow> error + query" where
  "prv_add_join_to_query self query join_arg =
     (case join_arg of
        PStr name \<Rightarrow>
          (case join_methods self (''_join_'' @ name) of
             None \<Rightarrow> Inl (AttributeError (''_join_'' @ name))
           | Some f \<Rightarrow> Inr (f query))
      | _ \<Rightarrow> Inl (TypeError ''can only concatenate str to str''))"

fun set_elements :: "pyval \<Rightarrow> pyval list" where
  "set_elements (PSet xs) = xs"
| "set_elements v = []"

definition prv_optional_join :: "crud \<Rightarrow> query \<Rightarrow> pyval \<Rightarrow> error + query" where
  "prv_optional_join self query join_arg =
     (if \<not> truthy join_arg then Inr query
      else if \<not> isinstance_set join_arg then Inl (TypeError ''join_ must be a set'')
      else reduce (prv_add_join_to_query self) (set_elements join_arg) query)"

definition prv_query :: "crud \<Rightarrow> pyval \<Rightarrow> error + query" where
  "prv_query self join_arg = prv_optional_join self (select (model_class self)) join_arg"

text \<open>
  \<open>query.where(getattr(self.model_class, field) == value)\<close>. Only the columns of the class
  are compared here; any other name is reported as the \<open>AttributeError\<close> of \<open>getattr\<close>.
\<close>

definition prv_get_by :: "crud \<Rightarrow> query \<Rightarrow> string \<Rightarrow> pyval \<Rightarrow> error + query" where
  "prv_get_by self query field value =
     (if field \<in> set (columns (model_class self))
      then Inr (query\<lparr>q_where := q_where query @ [(field, value)]\<rparr>)
      else Inl (AttributeError field))"

text \<open>
  \<open>_all\<close> is only given queries without an eager load: \<open>get_by\<close> reaches it when \<open>join_\<close> is
  \<open>None\<close>, and \<open>get_all\<close> builds its query without relationships.
\<close>

definition prv_all :: "world \<Rightarrow> query \<Rightarrow> pyval" where
  "prv_all w query = PList (rows_of (db w) query)"

definition prv_all_unique :: "world \<Rightarrow> query \<Rightarrow> pyval" where
  "prv_all_unique w query = PList (unique_rows [] (rows_of (db w) query))"

text \<open>
  \<open>ScalarResult.one_or_none()\<close> with no \<open>unique()\<close> before it: \<open>None\<close> for no row; with a
  first row, \<open>InvalidRequestError\<close> when the query loads a collection by a join (the result
  demands \<open>unique()\<close>), else the row when it is the only one and \<open>MultipleResultsFound\<close> as
  soon as there is a second row.
\<close>

definition prv_one_or_none :: "world \<Rightarrow> query \<Rightarrow> error + pyval" where
  "prv_one_or_none w query =
     (case rows_of (db w) query of
        [] \<Rightarrow> Inr PNone
      | x # xs \<Rightarrow>
          if joined_collection query then Inl InvalidRequestError
          else (case xs of [] \<Rightarrow> Inr x | y # zs \<Rightarrow> Inl MultipleResultsFound))"

definition get_by :: "crud \<Rightarrow> world \<Rightarrow> string \<Rightarrow> pyval \<Rightarrow> pyval \<Rightarrow> bool \<Rightarrow> error + pyval" where
  "get_by self w field value join_arg unique =
     (case prv_query self join_arg of
        Inl e \<Rightarrow> Inl e
      | Inr query \<Rightarrow>
          (case prv_get_by self query field value of
             Inl e \<Rightarrow> Inl e
           | Inr query' \<Rightarrow>
               if unique then prv_one_or_none w query'
               else if join_arg \<noteq> PNone then Inr (prv_all_unique w query')
               else Inr (prv_all w query')))"

definition get_by_id :: "crud \<Rightarrow> world \<Rightarrow> pyval \<Rightarrow> pyval \<Rightarrow> error + pyval" where
  "get_by_id self w ident join_arg =
     (case get_by self w ''id'' ident join_arg True of
        Inl e \<Rightarrow> Inl e
      | Inr db_obj \<Rightarrow>
          if \<not> truthy db_obj
          then Inl (HTTPException 404 (class_name (model_class self) @ '' not found''))
          else Inr db_obj)"

section \<open>\<open>BaseCRUD\<close>: writing\<close>

text \<open>
  \<open>dict(items)\<close>: a later item replaces the value of an equal key and keeps its place.
\<close>

definition dict_of :: "attrs \<Rightarrow> attrs" where
  "dict_of items = fold (\<lambda>kv. AList.update (fst kv) (snd kv)) items []"

text \<open>
  \<open>model_dump(exclude=..., exclude_unset=True)\<close> in Python mode: the fields in
  \<open>model_fields_set\<close>, nested schemas dumped the same way, other values as they are.
\<close>

fun dump_value :: "pyval \<Rightarrow> pyval"
and dump_list :: "pyval list \<Rightarrow> pyval list"
and dump_items :: "string list \<Rightarrow> (string \<times> pyval) list \<Rightarrow> (string \<times> pyval) list"
and dump_all :: "(string \<times> pyval) list \<Rightarrow> (string \<times> pyval) list"
where
  "dump_value (PSchema fs st) = PDict (dict_of (dump_items st fs))"
| "dump_value (PList xs) = PList (dump_list xs)"
| "dump_value (PDict kvs) = PDict (dump_all kvs)"
| "dump_value PNone = PNone"
| "dump_value (PBool b) = PBool b"
| "dump_value (PInt i) = PInt i"
| "dump_value (PFloat x) = PFloat x"
| "dump_value (PStr s) = PStr s"
| "dump_value (PUuid u) = PUuid u"
| "dump_value (PDatetime t) = PDatetime t"
| "dump_value (PStatus s) = PStatus s"
| "dump_value (PSet xs) = PSet xs"
| "dump_value (PObj k a) = PObj k a"
| "dump_value (PRef k i) = PRef k i"
| "dump_list [] = []"
| "dump_list (x # xs) = dump_value x # dump_list xs"
| "dump_items st [] = []"
| "dump_items st (kv # kvs) =
     (if fst kv \<in> set st then (fst kv, dump_value (snd kv)) # dump_items st kvs
      else dump_items st kvs)"
| "dump_all [] = []"
| "dump_all (kv # kvs) = (fst kv, dump_value (snd kv)) # dump_all kvs"

text \<open>A payload: an instance of a pydantic schema, its fields and \<open>model_fields_set\<close>.\<close>

record schema =
  model_fields :: attrs
  model_fields_set :: "string list"

definition model_dump :: "schema \<Rightarrow> string list option \<Rightarrow> attrs" where
  "model_dump s exclude =
     dict_of (dump_items (model_fields_set s)
       (filter (\<lambda>kv. case exclude of None \<Rightarrow> True | Some ex \<Rightarrow> fst kv \<notin> set ex) (model_fields s)))"

definition extract_attributes_from_schema :: "schema \<Rightarrow> string list option \<Rightarrow> attrs option" where
  "extract_attributes_from_schema s excludes = Some (model_dump s excludes)"


subsection \<open>Constructing an instance\<close>

text \<open>
  \<open>model_class(**kwargs)\<close> for a table class does not validate: it sets the fields given in
  \<open>kwargs\<close>, then the default of every other field that has one (a field without default
  stays unset), then the relationships given in \<open>kwargs\<close>; other keys are dropped.
\<close>

definition given_values :: "attrs \<Rightarrow> string list \<Rightarrow> attrs" where
  "given_values kwargs names =
     concat (map (\<lambda>f. case map_of kwargs f of None \<Rightarrow> [] | Some v \<Rightarrow> [(f, v)]) names)"

fun default_values :: "kind \<Rightarrow> attrs \<Rightarrow> string list \<Rightarrow> world \<Rightarrow> attrs \<times> world" where
  "default_values k kwargs [] w = ([], w)"
| "default_values k kwargs (f # fs) w =
     (if map_of kwargs f \<noteq> None then default_values k kwargs fs w
      else (case field_default k f of
              NoDefault \<Rightarrow> default_values k kwargs fs w
            | Default v \<Rightarrow>
                (case default_values k kwargs fs w of (ds, w') \<Rightarrow> ((f, v) # ds, w'))
            | FactoryUuid4 \<Rightarrow>
                (case draw_uuid w of (u, w1) \<Rightarrow>
                   (case default_values k kwargs fs w1 of (ds, w') \<Rightarrow> ((f, PUuid u) # ds, w')))
            | FactoryNow \<Rightarrow>
                (case default_values k kwargs fs w of
                   (ds, w') \<Rightarrow> ((f, PDatetime (now w)) # ds, w'))))"

definition sqlmodel_init :: "kind \<Rightarrow> attrs \<Rightarrow> world \<Rightarrow> attrs \<times> world" where
  "sqlmodel_init k kwargs w =
     (case default_values k kwargs (columns k) w of
        (ds, w') \<Rightarrow>
          (given_values kwargs (columns k) @ ds
             @ given_values kwargs (map r_name (relationships k)), w'))"

text \<open>What a \<open>for\<close> over the value yields, \<open>None\<close> when the value is not iterable.\<close>

fun iterate :: "pyval \<Rightarrow> pyval list option" where
  "iterate (PList xs) = Some xs"
| "iterate (PSet xs) = Some xs"
| "iterate (PDict kvs) = Some (map (\<lambda>kv. PStr (fst kv)) kvs)"
| "iterate (PStr s) = Some (map (\<lambda>c. PStr [c]) s)"
| "iterate (PSchema fs st) = Some (map (\<lambda>kv. PList [PStr (fst kv), snd kv]) fs)"
| "iterate (PObj k a) = Some (map (\<lambda>kv. PList [PStr (fst kv), snd kv]) a)"
| "iterate v = None"

text \<open>\<open>[OrderItem(**order_item) for order_item in order_items]\<close> of \<open>Order.__init__\<close>.\<close>

fun order_items_of :: "pyval list \<Rightarrow> world \<Rightarrow> (error + pyval list) \<times> world" where
  "order_items_of [] w = (Inr [], w)"
| "order_items_of (x # xs) w =
     (case x of
        PDict kw \<Rightarrow>
          (case sqlmodel_init OrderItem kw w of
             (a, w1) \<Rightarrow>
               (case order_items_of xs w1 of
                  (Inl e, w2) \<Rightarrow> (Inl e, w2)
                | (Inr items, w2) \<Rightarrow> (Inr (PObj OrderItem a # items), w2)))
      | _ \<Rightarrow> (Inl (TypeError ''argument after ** must be a mapping''), w))"

text \<open>Setting an attribute of an instance from inside the library, with no check.\<close>

fun put_attr :: "string \<Rightarrow> pyval \<Rightarrow> pyval \<Rightarrow> pyval" where
  "put_attr name v (PObj k a) = PObj k (AList.update name v a)"
| "put_attr name v obj = obj"

text \<open>
  \<open>self.model_class(**attributes)\<close>. \<open>Order\<close> overrides \<open>__init__\<close>: it pops \<open>order_items\<close>
  (default \<open>[]\<close>), initialises the rest, and sets \<open>order_items\<close> to the instances built from
  the popped dicts. Assigning the list sets the attribute \<open>order\<close> of each item to the order
  (\<open>back_populates="order"\<close>).
\<close>

definition new_model :: "kind \<Rightarrow> attrs \<Rightarrow> world \<Rightarrow> (error + pyval) \<times> world" where
  "new_model k kwargs w =
     (if k = Order then
        (let order_items = (case map_of kwargs ''order_items'' of None \<Rightarrow> PList [] | Some v \<Rightarrow> v);
             kwargs' = AList.delete ''order_items'' kwargs
         in case sqlmodel_init Order kwargs' w of
              (a, w1) \<Rightarrow>
                (case iterate order_items of
                   None \<Rightarrow> (Inl (TypeError ''object is not iterable''), w1)
                 | Some xs \<Rightarrow>
                     (case order_items_of xs w1 of
                        (Inl e, w2) \<Rightarrow> (Inl e, w2)
                      | (Inr items, w2) \<Rightarrow>
                          (Inr (PObj Order
                                 (AList.update ''order_items''
                                    (PList (map (put_attr ''order'' (PRef Order (col a ''id''))) items))
                                    a)), w2))))
      else (case sqlmodel_init k kwargs w of (a, w') \<Rightarrow> (Inr (PObj k a), w')))"

subsection \<open>The unit of work\<close>

text \<open>
  The session is an object of SQLAlchemy; the model below is what the calls of \<open>crud.py\<close>
  use of it. The row of an instance is its column attributes. \<open>session.add\<close> writes the row
  of the instance, in place of the row with the same primary key if there is one, and with
  it the instances held in its collections, each with the foreign key set to the parent
  (every relationship cascades \<open>save-update\<close>). Instances held in a many-to-one attribute
  are not followed. What the flush does to the instance itself is \<open>flushed\<close> below.
\<close>

definition row_of :: "kind \<Rightarrow> attrs \<Rightarrow> attrs" where
  "row_of k a = filter (\<lambda>kv. fst kv \<in> set (columns k)) a"

definition has_id :: "pyval \<Rightarrow> attrs list \<Rightarrow> bool" where
  "has_id i rows = list_ex (\<lambda>r. col r ''id'' = i) rows"

definition upsert :: "attrs \<Rightarrow> attrs list \<Rightarrow> attrs list" where
  "upsert row rows =
     (if has_id (col row ''id'') rows
      then map (\<lambda>r. if col r ''id'' = col row ''id'' then row else r) rows
      else rows @ [row])"

fun add_children :: "relationship \<Rightarrow> pyval \<Rightarrow> pyval list \<Rightarrow> attrs list \<Rightarrow> attrs list" where
  "add_children rel pid [] rows = rows"
| "add_children rel pid (c # cs) rows =
     (case c of
        PObj k' ca \<Rightarrow>
          add_children rel pid cs
            (upsert (AList.update (r_fk rel) pid (row_of (r_target rel) ca)) rows)
      | _ \<Rightarrow> add_children rel pid cs rows)"

definition cascade_add ::
  "attrs \<Rightarrow> relationship \<Rightarrow> (kind \<Rightarrow> attrs list) \<Rightarrow> (kind \<Rightarrow> attrs list)" where
  "cascade_add a rel d =
     (if r_to_many rel
      then (case map_of a (r_name rel) of
              Some (PList cs) \<Rightarrow>
                d(r_target rel := add_children rel (col a ''id'') cs (d (r_target rel)))
            | _ \<Rightarrow> d)
      else d)"

definition session_add :: "world \<Rightarrow> pyval \<Rightarrow> error + world" where
  "session_add w model =
     (case model of
        PObj k a \<Rightarrow>
          Inr (w\<lparr>db := fold (cascade_add a) (relationships k)
                          ((db w)(k := upsert (row_of k a) (db w k)))\<rparr>)
      | _ \<Rightarrow> Inl UnmappedInstanceError)"

text \<open>
  The new instance after the flush that writes it: the flush stores the key of the parent
  in the foreign key attribute of each instance held in a collection of the parent. The
  instance given to \<open>update\<close> is one the session holds already, written with its children,
  and the flush leaves it as it is.
\<close>

definition flush_children :: "relationship \<Rightarrow> attrs \<Rightarrow> attrs" where
  "flush_children rel a =
     (if r_to_many rel
      then (case map_of a (r_name rel) of
              Some (PList cs) \<Rightarrow>
                AList.update (r_name rel) (PList (map (put_attr (r_fk rel) (col a ''id'')) cs)) a
            | _ \<Rightarrow> a)
      else a)"

fun flushed :: "pyval \<Rightarrow> pyval" where
  "flushed (PObj k a) = PObj k (fold flush_children (relationships k) a)"
| "flushed obj = obj"

text \<open>
  \<open>session.delete\<close> of an instance that has no row is refused. Otherwise, for each collection
  of the instance's class: with \<open>delete\<close> in the cascade the children are deleted too, without
  it their foreign key is set to \<open>NULL\<close>; then the row itself is deleted.
\<close>

definition cascade_delete ::
  "pyval \<Rightarrow> relationship \<Rightarrow> (kind \<Rightarrow> attrs list) \<Rightarrow> (kind \<Rightarrow> attrs list)" where
  "cascade_delete pid rel d =
     (if \<not> r_to_many rel \<or> pid = PNone then d
      else if r_delete_cascade rel
      then d(r_target rel := filter (\<lambda>c. col c (r_fk rel) \<noteq> pid) (d (r_target rel)))
      else d(r_target rel :=
               map (\<lambda>c. if col c (r_fk rel) = pid then AList.update (r_fk rel) PNone c else c)
                 (d (r_target rel))))"

definition session_delete :: "world \<Rightarrow> pyval \<Rightarrow> error + world" where
  "session_delete w model =
     (case model of
        PObj k a \<Rightarrow>
          if \<not> has_id (col a ''id'') (db w k) then Inl InvalidRequestError
          else (let d = fold (cascade_delete (col a ''id'')) (relationships k) (db w)
                in Inr (w\<lparr>db := d(k := filter (\<lambda>r. col r ''id'' \<noteq> col a ''id'') (d k))\<rparr>))
      | _ \<Rightarrow> Inl UnmappedInstanceError)"

text \<open>The constraints the tables declare: primary key, \<open>NOT NULL\<close>, foreign keys.\<close>

definition pk_ok :: "attrs list \<Rightarrow> bool" where
  "pk_ok rows = distinct (map (\<lambda>r. col r ''id'') rows)"

definition not_null_ok :: "kind \<Rightarrow> attrs list \<Rightarrow> bool" where
  "not_null_ok k rows = list_all (\<lambda>r. list_all (\<lambda>c. col r c \<noteq> PNone) (not_null_columns k)) rows"

definition fk_ok :: "(kind \<Rightarrow> attrs list) \<Rightarrow> kind \<Rightarrow> bool" where
  "fk_ok d k =
     list_all (\<lambda>r. list_all (\<lambda>ct. col r (fst ct) = PNone \<or> has_id (col r (fst ct)) (d (snd ct)))
                      (foreign_keys k)) (d k)"

definition integrity :: "(kind \<Rightarrow> attrs list) \<Rightarrow> bool" where
  "integrity d = list_all (\<lambda>k. pk_ok (d k) \<and> not_null_ok k (d k) \<and> fk_ok d k) [Product, Order, OrderItem]"

text \<open>
  Modelled from the spec: the decorator \<open>Transactional\<close> of \<open>shopAPI.database\<close> is not among
  the sources. By the spec it commits when the wrapped operation completes, and on any
  failure, that of the store rejecting a write included, discards every change made since
  the operation began and raises the failure unchanged. The store rejects a commit that
  breaks a declared constraint.
\<close>

definition Transactional ::
  "(world \<Rightarrow> (error + 'a) \<times> world) \<Rightarrow> world \<Rightarrow> (error + 'a) \<times> world" where
  "Transactional body w =
     (case body w of
        (Inl e, w') \<Rightarrow> (Inl e, w'\<lparr>db := db w\<rparr>)
      | (Inr r, w') \<Rightarrow>
          if integrity (db w') then (Inr r, w') else (Inl IntegrityError, w'\<lparr>db := db w\<rparr>))"

subsection \<open>\<open>create\<close>, \<open>update\<close>, \<open>delete\<close>\<close>

text \<open>
  \<open>create\<close> returns the instance it constructed; by the time the caller has it, the commit
  has flushed it.
\<close>

definition create_body :: "crud \<Rightarrow> schema \<Rightarrow> world \<Rightarrow> (error + pyval) \<times> world" where
  "create_body self model_create w =
     (let attributes = extract_attributes_from_schema model_create None;
          attributes = (case attributes of None \<Rightarrow> [] | Some a \<Rightarrow> a)
      in case new_model (model_class self) attributes w of
           (Inl e, w1) \<Rightarrow> (Inl e, w1)
         | (Inr model, w1) \<Rightarrow>
             (case session_add w1 model of
                Inl e \<Rightarrow> (Inl e, w1)
              | Inr w2 \<Rightarrow> (Inr (flushed model), w2)))"

definition create :: "crud \<Rightarrow> world \<Rightarrow> schema \<Rightarrow> (error + pyval) \<times> world" where
  "create self w model_create = Transactional (create_body self model_create) w"

text \<open>
  \<open>setattr(model, k, v)\<close> on an instance of a table class: a name that is neither a field
  nor a relationship of the class is refused with \<open>ValueError\<close>.
\<close>

fun setattr :: "pyval \<Rightarrow> string \<Rightarrow> pyval \<Rightarrow> error + pyval" where
  "setattr (PObj k a) name v =
     (if name \<in> set (columns k) \<union> set (map r_name (relationships k))
      then Inr (PObj k (AList.update name v a))
      else Inl (ValueError name))"
| "setattr obj name v = Inl (AttributeError name)"

definition update_body :: "crud \<Rightarrow> pyval \<Rightarrow> schema \<Rightarrow> world \<Rightarrow> (error + pyval) \<times> world" where
  "update_body self model model_update w =
     (case extract_attributes_from_schema model_update None of
        None \<Rightarrow> (Inl (AttributeError ''items''), w)
      | Some attributes \<Rightarrow>
          (case reduce (\<lambda>m kv. setattr m (fst kv) (snd kv)) attributes model of
             Inl e \<Rightarrow> (Inl e, w)
           | Inr model' \<Rightarrow>
               (case session_add w model' of
                  Inl e \<Rightarrow> (Inl e, w)
                | Inr w' \<Rightarrow> (Inr model', w'))))"

definition update :: "crud \<Rightarrow> world \<Rightarrow> pyval \<Rightarrow> schema \<Rightarrow> (error + pyval) \<times> world" where
  "update self w model model_update = Transactional (update_body self model model_update) w"

definition delete_body :: "crud \<Rightarrow> pyval \<Rightarrow> world \<Rightarrow> (error + pyval) \<times> world" where
  "delete_body self model w =
     (case session_delete w model of
        Inl e \<Rightarrow> (Inl e, w)
      | Inr w' \<Rightarrow> (Inr PNone, w'))"

definition delete :: "crud \<Rightarrow> world \<Rightarrow> pyval \<Rightarrow> (error + pyval) \<times> world" where
  "delete self w model = Transactional (delete_body self model) w"

section \<open>Notions used to state the properties\<close>

text \<open>
  The value a field of class \<open>k\<close> takes when an instance is constructed in \<open>w\<close> and the field
  is not given: its default, if it has one.
\<close>

definition default_of :: "world \<Rightarrow> kind \<Rightarrow> string \<Rightarrow> pyval option" where
  "default_of w k f =
     (case field_default k f of
        NoDefault \<Rightarrow> None
      | Default v \<Rightarrow> Some v
      | FactoryUuid4 \<Rightarrow> Some (PUuid (uuid4 w (drawn w)))
      | FactoryNow \<Rightarrow> Some (PDatetime (now w)))"

text \<open>
  The attributes \<open>a\<close> are those of an instance of \<open>k\<close> constructed in \<open>w\<close> from \<open>kwargs\<close>:
  each field is the one given or else its default, each relationship is the one given,
  and there is no other attribute.
\<close>

definition built_from :: "world \<Rightarrow> kind \<Rightarrow> attrs \<Rightarrow> attrs \<Rightarrow> bool" where
  "built_from w k kwargs a =
     (\<forall>f. map_of a f =
        (if f \<in> set (columns k)
         then (case map_of kwargs f of Some v \<Rightarrow> Some v | None \<Rightarrow> default_of w k f)
         else if f \<in> set (map r_name (relationships k)) then map_of kwargs f
         else None))"

text \<open>
  \<open>item\<close> is the \<open>OrderItem\<close> that the constructor builds from the dict \<open>x\<close>, in some state
  of the UUID supply of \<open>w\<close>.
\<close>

definition item_init :: "world \<Rightarrow> pyval \<Rightarrow> pyval \<Rightarrow> bool" where
  "item_init w x item =
     (\<exists>kw ia wi. x = PDict kw \<and> item = PObj OrderItem ia
        \<and> uuid4 wi = uuid4 w \<and> built_from wi OrderItem kw ia)"

text \<open>
  \<open>item\<close> is the \<open>OrderItem\<close> that \<open>create\<close> returns inside the order of primary key \<open>oid\<close>
  for the dict \<open>x\<close> of the payload: the instance built from the dict, with its attribute
  \<open>order\<close> holding the order and its \<open>order_id\<close> the key of the order.
\<close>

definition item_built :: "world \<Rightarrow> pyval \<Rightarrow> pyval \<Rightarrow> pyval \<Rightarrow> bool" where
  "item_built w oid x item =
     (\<exists>kw ia0 ia wi. x = PDict kw \<and> item = PObj OrderItem ia
        \<and> uuid4 wi = uuid4 w \<and> built_from wi OrderItem kw ia0
        \<and> map_of ia = (map_of ia0)(''order'' \<mapsto> PRef Order oid, ''order_id'' \<mapsto> oid))"

text \<open>An order item after the product \<open>pid\<close> is deleted: it no longer references it.\<close>

definition unlink :: "pyval \<Rightarrow> attrs \<Rightarrow> attrs" where
  "unlink pid c = (if col c ''product_id'' = pid then AList.update ''product_id'' PNone c else c)"


text \<open>
  The references of the order items as the specification words them: each item has an
  \<open>order_id\<close> that is the id of an order in the store and a \<open>product_id\<close> that is the id of
  a product in the store.
\<close>

definition refs_present :: "(kind \<Rightarrow> attrs list) \<Rightarrow> bool" where
  "refs_present d =
     list_all (\<lambda>i. col i ''order_id'' \<noteq> PNone \<and> has_id (col i ''order_id'') (d Order)
                   \<and> col i ''product_id'' \<noteq> PNone \<and> has_id (col i ''product_id'') (d Product))
       (d OrderItem)"

text \<open>The same with each reference allowed to be absent.\<close>

definition refs_valid :: "(kind \<Rightarrow> attrs list) \<Rightarrow> bool" where
  "refs_valid d =
     list_all (\<lambda>i. (col i ''order_id'' = PNone \<or> has_id (col i ''order_id'') (d Order))
                   \<and> (col i ''product_id'' = PNone \<or> has_id (col i ''product_id'') (d Product)))
       (d OrderItem)"


section \<open>A small shop\<close>

text \<open>
  A store with one product, one order and its two items, and one repository per table
  class; the repository of orders can load \<open>order_items\<close>.
\<close>

text \<open>
  Modelled from the spec: the method \<open>_join_order_items\<close> of the repository of orders is not
  among the sources. By the spec a join function shapes the query so that it eagerly loads
  the named relationship as part of the same query, and a join to a one-to-many relationship
  fans out rows: the method adds the joined eager load of \<open>order_items\<close> to the query.
\<close>

definition join_order_items :: "query \<Rightarrow> query" where
  "join_order_items q = q\<lparr>q_joins := q_joins q @ [''order_items'']\<rparr>"

definition ex_orders :: crud where
  "ex_orders = \<lparr>model_class = Order,
     join_methods = (\<lambda>n. if n = ''_join_order_items'' then Some join_order_items else None)\<rparr>"

definition ex_products :: crud where
  "ex_products = \<lparr>model_class = Product, join_methods = (\<lambda>n. None)\<rparr>"

definition ex_items :: crud where
  "ex_items = \<lparr>model_class = OrderItem, join_methods = (\<lambda>n. None)\<rparr>"

definition ex_product :: attrs where
  "ex_product = [(''name'', PStr ''Widget''), (''description'', PStr ''d''),
     (''price'', PFloat 0x4023FAE147AE147B), (''amount'', PInt 5), (''id'', PUuid 100)]"

definition ex_order :: attrs where
  "ex_order = [(''id'', PUuid 101), (''creation_date'', PDatetime 7), (''status'', PStatus created)]"

definition ex_item :: "nat \<Rightarrow> int \<Rightarrow> attrs" where
  "ex_item i n = [(''amount'', PInt n), (''product_id'', PUuid 100), (''id'', PUuid i),
     (''order_id'', PUuid 101)]"

definition ex_db :: "kind \<Rightarrow> attrs list" where
  "ex_db k = (case k of Product \<Rightarrow> [ex_product] | Order \<Rightarrow> [ex_order]
              | OrderItem \<Rightarrow> [ex_item 102 2, ex_item 103 3])"

definition ex_world :: world where
  "ex_world = \<lparr>db = ex_db, uuid4 = (\<lambda>n. 100 + n), drawn = 4, now = 7\<rparr>"


definition ex_status_patch :: schema where
  "ex_status_patch = \<lparr>model_fields = [(''status'', PStatus shipped)], model_fields_set = [''status'']\<rparr>"


definition ex_order_payload :: schema where
  "ex_order_payload =
     \<lparr>model_fields = [(''order_items'',
         PList [PSchema [(''amount'', PInt 2), (''product_id'', PUuid 100)]
                        [''amount'', ''product_id'']])],
      model_fields_set = [''order_items'']\<rparr>"

definition ex_created :: pyval where
  "ex_created = PObj Order [(''id'', PUuid 104), (''creation_date'', PDatetime 7),
     (''status'', PStatus created),
     (''order_items'', PList [PObj OrderItem
        [(''amount'', PInt 2), (''product_id'', PUuid 100), (''id'', PUuid 105),
         (''order'', PRef Order (PUuid 104)), (''order_id'', PUuid 104)]])]"


definition ex_item_payload :: schema where
  "ex_item_payload =
     \<lparr>model_fields = [(''amount'', PInt 1), (''product_id'', PUuid 100)],
      model_fields_set = [''amount'', ''product_id'']\<rparr>"

definition ex_created_item :: pyval where
  "ex_created_item = PObj OrderItem [(''amount'', PInt 1), (''product_id'', PUuid 100), (''id'', PUuid 104)]"


definition ex_empty_payload :: schema where
  "ex_empty_payload = \<lparr>model_fields = [], model_fields_set = []\<rparr>"

definition ex_created_empty :: pyval where
  "ex_created_empty = PObj Order [(''id'', PUuid 104), (''creation_date'', PDatetime 7),
     (''status'', PStatus created), (''order_items'', PList [])]"

section \<open>Properties of the read path\<close>

lemmas ex_defs = ex_world_def ex_db_def ex_orders_def ex_products_def ex_items_def
  ex_product_def ex_order_def ex_item_def join_order_items_def
lemmas read_defs = get_by_id_def get_by_def prv_query_def prv_optional_join_def prv_get_by_def
  prv_one_or_none_def prv_all_def prv_all_unique_def prv_add_join_to_query_def
  rows_of_def join_rows_def fan_out_def matches_def col_def select_def joined_collection_def


lemma unique_rows_fresh:
  "obj_id ` set (unique_rows seen xs) = obj_id ` set xs - set seen"
  by (induction xs arbitrary: seen) auto

lemma unique_rows_distinct: "distinct (map obj_id (unique_rows seen xs))"
proof (induction xs arbitrary: seen)
  case Nil
  then show ?case by simp
next
  case (Cons x xs)
  have "obj_id x \<notin> obj_id ` set (unique_rows (obj_id x # seen) xs)"
    by (simp add: unique_rows_fresh)
  with Cons show ?case by simp
qed

lemma unique_rows_subset: "set (unique_rows seen xs) \<subseteq> set xs"
  by (induction xs arbitrary: seen) auto

lemma rows_of_obj: "x \<in> set (rows_of d q) \<Longrightarrow> \<exists>a. x = PObj (q_model q) a"
  by (auto simp: rows_of_def)

lemma prv_one_or_none_Inr:
  assumes "prv_one_or_none w q = Inr r"
  shows "r = PNone \<or> (\<exists>a. r = PObj (q_model q) a)"
proof (cases "rows_of (db w) q")
  case Nil
  with assms show ?thesis by (simp add: prv_one_or_none_def)
next
  case (Cons x xs)
  then have "x \<in> set (rows_of (db w) q)" by simp
  from rows_of_obj [OF this] obtain a where "x = PObj (q_model q) a" ..
  then show ?thesis using Cons assms
    by (auto simp: prv_one_or_none_def split: if_splits list.splits)
qed

lemma get_by_unique_cases:
  "get_by self w f v j True = Inr r \<Longrightarrow> r = PNone \<or> (\<exists>k a. r = PObj k a)"
  by (auto simp: get_by_def split: sum.splits dest!: prv_one_or_none_Inr)

lemma add_join_str:
  "prv_add_join_to_query self q (PStr m) =
     (case join_methods self (''_join_'' @ m) of
        None \<Rightarrow> Inl (AttributeError (''_join_'' @ m)) | Some g \<Rightarrow> Inr (g q))"
  by (simp add: prv_add_join_to_query_def)

lemma add_join_Inr: "prv_add_join_to_query self q y = Inr q' \<Longrightarrow> \<exists>n. y = PStr n"
  by (cases y) (simp_all add: prv_add_join_to_query_def)

lemma reduce_unregistered:
  assumes "\<forall>x \<in> set names. \<exists>n. x = PStr n"
    and "PStr n \<in> set names" and "join_methods self (''_join_'' @ n) = None"
  shows "\<exists>n'. PStr n' \<in> set names \<and> join_methods self (''_join_'' @ n') = None \<and>
           reduce (prv_add_join_to_query self) names q = Inl (AttributeError (''_join_'' @ n'))"
  using assms
proof (induction names arbitrary: q)
  case Nil
  then show ?case by simp
next
  case (Cons x xs)
  from Cons.prems(1) obtain m where x: "x = PStr m" by auto
  show ?case
  proof (cases "join_methods self (''_join_'' @ m)")
    case None
    then have "reduce (prv_add_join_to_query self) (x # xs) q = Inl (AttributeError (''_join_'' @ m))"
      using x by (simp add: add_join_str)
    with None x show ?thesis by auto
  next
    case (Some g)
    with Cons.prems x have "PStr n \<in> set xs" by auto
    with Cons.IH [of "g q"] Cons.prems(1,3)
    obtain n' where "PStr n' \<in> set xs" "join_methods self (''_join_'' @ n') = None"
      "reduce (prv_add_join_to_query self) xs (g q) = Inl (AttributeError (''_join_'' @ n'))"
      by auto
    moreover have "reduce (prv_add_join_to_query self) (x # xs) q = reduce (prv_add_join_to_query self) xs (g q)"
      using x Some by (simp add: add_join_str)
    ultimately show ?thesis by auto
  qed
qed

lemma reduce_non_string:
  assumes "x \<in> set names" "\<forall>n. x \<noteq> PStr n"
  shows "\<exists>e. reduce (prv_add_join_to_query self) names q = Inl e"
  using assms
proof (induction names arbitrary: q)
  case Nil
  then show ?case by simp
next
  case (Cons y ys)
  show ?case
  proof (cases "prv_add_join_to_query self q y")
    case (Inl e)
    then show ?thesis by simp
  next
    case (Inr q')
    then have "\<exists>n. y = PStr n"
      by (rule add_join_Inr)
    with Cons.prems have "x \<in> set ys" by auto
    with Cons.IH [of q'] Cons.prems(2) Inr show ?thesis by auto
  qed
qed



text \<open>
  C1. With \<open>unique=True\<close> and more than one matching row \<open>get_by\<close> returns neither one record
  nor \<open>None\<close>: \<open>_one_or_none\<close>, documented as returning the first result, calls
  \<open>one_or_none()\<close>, which raises. Two order items of one order are matched by their
  \<open>order_id\<close>, and the call raises \<open>MultipleResultsFound\<close>; the order is matched by its id
  with its \<open>order_items\<close> loaded, and the call raises \<open>InvalidRequestError\<close>, where \<open>unique=False\<close>
  returns the one order.
\<close>

theorem get_by_unique_raises:
  "get_by ex_items ex_world ''order_id'' (PUuid 101) PNone False
     = Inr (PList [PObj OrderItem (ex_item 102 2), PObj OrderItem (ex_item 103 3)])
   \<and> get_by ex_items ex_world ''order_id'' (PUuid 101) PNone True = Inl MultipleResultsFound
   \<and> get_by ex_orders ex_world ''id'' (PUuid 101) (PSet [PStr ''order_items'']) False
     = Inr (PList [PObj Order ex_order])
   \<and> get_by ex_orders ex_world ''id'' (PUuid 101) (PSet [PStr ''order_items'']) True
     = Inl InvalidRequestError"
  by (simp add: ex_defs read_defs)

lemma optional_join_set:
  "names \<noteq> [] \<Longrightarrow> prv_optional_join self q (PSet names) = reduce (prv_add_join_to_query self) names q"
  by (simp add: prv_optional_join_def)

lemma get_by_query_error:
  "prv_query self j = Inl e \<Longrightarrow> get_by self w f v j u = Inl e"
  by (simp add: get_by_def)

lemma get_by_id_error:
  "get_by self w ''id'' i j True = Inl e \<Longrightarrow> get_by_id self w i j = Inl e"
  by (simp add: get_by_id_def)

text \<open>
  C4. A relationship argument that is truthy and is not a set is refused with the
  \<open>TypeError\<close> of \<open>_optional_join\<close>, by \<open>get_by\<close> and \<open>get_by_id\<close> alike, before any
  element is looked at; a set that holds an element that is not a string is refused too,
  by the error of the first element that cannot be applied.
\<close>

theorem join_not_a_set_rejected:
  "(truthy j \<and> \<not> isinstance_set j \<longrightarrow>
      prv_optional_join self q j = Inl (TypeError ''join_ must be a set'')
      \<and> get_by self w f v j u = Inl (TypeError ''join_ must be a set'')
      \<and> get_by_id self w i j = Inl (TypeError ''join_ must be a set''))
   \<and> (\<forall>x. x \<in> set names \<and> (\<forall>n. x \<noteq> PStr n) \<longrightarrow>
          (\<exists>e. prv_optional_join self q (PSet names) = Inl e)
          \<and> (\<exists>e. get_by self w f v (PSet names) u = Inl e))"
proof (intro conjI allI impI)
  assume a: "truthy j \<and> \<not> isinstance_set j"
  then show "prv_optional_join self q j = Inl (TypeError ''join_ must be a set'')"
    by (simp add: prv_optional_join_def)
  from a have "prv_query self j = Inl (TypeError ''join_ must be a set'')"
    by (simp add: prv_query_def prv_optional_join_def)
  then show "get_by self w f v j u = Inl (TypeError ''join_ must be a set'')" for u f v
    by (rule get_by_query_error)
  then show "get_by_id self w i j = Inl (TypeError ''join_ must be a set'')"
    by (rule get_by_id_error)
next
  fix x assume a: "x \<in> set names \<and> (\<forall>n. x \<noteq> PStr n)"
  then have ne: "names \<noteq> []" by auto
  have r: "\<exists>e. reduce (prv_add_join_to_query self) names q' = Inl e" for q'
    using a reduce_non_string [of x names self] by blast
  from r [of q] show "\<exists>e. prv_optional_join self q (PSet names) = Inl e"
    using ne by (simp add: optional_join_set)
  from r [of "select (model_class self)"] obtain e
    where "prv_query self (PSet names) = Inl e"
    using ne by (auto simp: prv_query_def optional_join_set)
  then have "get_by self w f v (PSet names) u = Inl e" by (rule get_by_query_error)
  then show "\<exists>e. get_by self w f v (PSet names) u = Inl e" ..
qed

theorem join_not_a_set_rejected_witness:
  "truthy (PStr ''order_items'') \<and> \<not> isinstance_set (PStr ''order_items'')
   \<and> get_by ex_orders ex_world ''id'' (PUuid 101) (PStr ''order_items'') False
       = Inl (TypeError ''join_ must be a set'')
   \<and> PInt 1 \<in> set [PInt 1] \<and> (\<forall>n. PInt 1 \<noteq> PStr n)
   \<and> (\<exists>e. get_by ex_orders ex_world ''id'' (PUuid 101) (PSet [PInt 1]) False = Inl e)"
  using join_not_a_set_rejected [of "PStr ''order_items''" ex_orders "select Order" ex_world
      "''id''" "PUuid 101" False "PUuid 101" "[PInt 1]"]
  by simp

theorem join_falsy_string_counterexample:
  "get_by ex_products ex_world ''id'' (PUuid 100) (PStr []) False
     = Inr (PList [PObj Product ex_product])"
  by (simp add: ex_defs read_defs)

text \<open>
  C5. A set of names of which one has no \<open>_join_\<close> attribute on the repository is refused with
  the \<open>AttributeError\<close> of \<open>getattr\<close> for such a name, by \<open>_optional_join\<close>, \<open>_query\<close>, \<open>get_by\<close>
  and \<open>get_by_id\<close>.
\<close>

theorem unsupported_relationship:
  assumes "\<forall>x \<in> set names. \<exists>n. x = PStr n"
    and "PStr n \<in> set names"
    and "join_methods self (''_join_'' @ n) = None"
  shows "\<exists>m. PStr m \<in> set names \<and> join_methods self (''_join_'' @ m) = None
           \<and> prv_optional_join self q (PSet names) = Inl (AttributeError (''_join_'' @ m))
           \<and> (\<exists>m'. PStr m' \<in> set names \<and> join_methods self (''_join_'' @ m') = None
           \<and> prv_query self (PSet names) = Inl (AttributeError (''_join_'' @ m'))
           \<and> get_by self w f v (PSet names) u = Inl (AttributeError (''_join_'' @ m'))
           \<and> get_by_id self w i (PSet names) = Inl (AttributeError (''_join_'' @ m')))"
proof -
  from assms(2) have ne: "names \<noteq> []" by auto
  from reduce_unregistered [OF assms, of q] obtain m where m:
    "PStr m \<in> set names" "join_methods self (''_join_'' @ m) = None"
    "reduce (prv_add_join_to_query self) names q = Inl (AttributeError (''_join_'' @ m))"
    by blast
  from reduce_unregistered [OF assms, of "select (model_class self)"] obtain m' where m':
    "PStr m' \<in> set names" "join_methods self (''_join_'' @ m') = None"
    "reduce (prv_add_join_to_query self) names (select (model_class self))
       = Inl (AttributeError (''_join_'' @ m'))"
    by blast
  have q: "prv_query self (PSet names) = Inl (AttributeError (''_join_'' @ m'))"
    using ne m'(3) by (simp add: prv_query_def optional_join_set)
  have g: "get_by self w f' v' (PSet names) u' = Inl (AttributeError (''_join_'' @ m'))" for f' v' u'
    using q by (rule get_by_query_error)
  have "get_by_id self w i (PSet names) = Inl (AttributeError (''_join_'' @ m'))"
    using g by (rule get_by_id_error)
  moreover have "prv_optional_join self q (PSet names) = Inl (AttributeError (''_join_'' @ m))"
    using ne m(3) by (simp add: optional_join_set)
  ultimately show ?thesis using m(1,2) m'(1,2) q g by blast
qed

theorem unsupported_relationship_witness:
  "PStr ''unknown'' \<in> set [PStr ''order_items'', PStr ''unknown'']
   \<and> join_methods ex_orders (''_join_'' @ ''unknown'') = None
   \<and> get_by ex_orders ex_world ''id'' (PUuid 101) (PSet [PStr ''order_items'', PStr ''unknown'']) False
        = Inl (AttributeError ''_join_unknown'')"
proof -
  have a: "\<forall>x \<in> set [PStr ''order_items'', PStr ''unknown'']. \<exists>n. x = PStr n" by simp
  have b: "PStr ''unknown'' \<in> set [PStr ''order_items'', PStr ''unknown'']" by simp
  have c: "join_methods ex_orders (''_join_'' @ ''unknown'') = None" by (simp add: ex_orders_def)
  from unsupported_relationship [OF a b c, of "select Order" ex_world "''id''" "PUuid 101" False "PUuid 101"]
  obtain m' where "PStr m' \<in> set [PStr ''order_items'', PStr ''unknown'']"
    "join_methods ex_orders (''_join_'' @ m') = None"
    "get_by ex_orders ex_world ''id'' (PUuid 101) (PSet [PStr ''order_items'', PStr ''unknown'']) False
        = Inl (AttributeError (''_join_'' @ m'))"
    by blast
  moreover from this have "m' = ''unknown''" by (auto simp: ex_orders_def)
  ultimately show ?thesis using b c by simp
qed

text \<open>
  C8. When the relationship argument is not \<open>None\<close> (a non-empty set of names in particular)
  and \<open>unique\<close> is false, \<open>get_by\<close> returns a list that holds no identity twice, and every
  identity the query gave.
\<close>

theorem get_by_relationships_deduplicated:
  assumes "j \<noteq> PNone" and "get_by self w f v j False = Inr r"
  shows "\<exists>xs q. r = PList xs \<and> distinct (map obj_id xs) \<and> distinct xs
           \<and> prv_query self j = Inr q
           \<and> set xs \<subseteq> set (rows_of (db w) (q\<lparr>q_where := q_where q @ [(f, v)]\<rparr>))
           \<and> obj_id ` set xs = obj_id ` set (rows_of (db w) (q\<lparr>q_where := q_where q @ [(f, v)]\<rparr>))"
proof -
  from assms(2) obtain q where q: "prv_query self j = Inr q"
    by (cases "prv_query self j") (simp_all add: get_by_def)
  with assms obtain q' where q': "prv_get_by self q f v = Inr q'"
    by (cases "prv_get_by self q f v") (simp_all add: get_by_def)
  then have eq: "q' = q\<lparr>q_where := q_where q @ [(f, v)]\<rparr>"
    by (auto simp: prv_get_by_def split: if_splits)
  let ?xs = "unique_rows [] (rows_of (db w) q')"
  from assms q q' have r: "r = PList ?xs"
    by (simp add: get_by_def prv_all_unique_def)
  have d: "distinct (map obj_id ?xs)" by (rule unique_rows_distinct)
  then have "distinct ?xs" by (simp add: distinct_map)
  moreover have "obj_id ` set ?xs = obj_id ` set (rows_of (db w) q')"
    by (simp add: unique_rows_fresh)
  moreover have "set ?xs \<subseteq> set (rows_of (db w) q')" by (rule unique_rows_subset)
  ultimately show ?thesis using r d q eq by blast
qed

theorem get_by_relationships_deduplicated_witness:
  "PSet [PStr ''order_items''] \<noteq> PNone
   \<and> rows_of (db ex_world) ((join_order_items (select Order))\<lparr>q_where := [(''id'', PUuid 101)]\<rparr>)
       = [PObj Order ex_order, PObj Order ex_order]
   \<and> get_by ex_orders ex_world ''id'' (PUuid 101) (PSet [PStr ''order_items'']) False
       = Inr (PList [PObj Order ex_order])
   \<and> (\<exists>xs. PList [PObj Order ex_order] = PList xs \<and> distinct (map obj_id xs))"
proof -
  have a: "PSet [PStr ''order_items''] \<noteq> PNone" by simp
  have b: "get_by ex_orders ex_world ''id'' (PUuid 101) (PSet [PStr ''order_items'']) False
       = Inr (PList [PObj Order ex_order])"
    by (simp add: ex_defs read_defs)
  have c: "rows_of (db ex_world) ((join_order_items (select Order))\<lparr>q_where := [(''id'', PUuid 101)]\<rparr>)
       = [PObj Order ex_order, PObj Order ex_order]"
    by (simp add: ex_defs read_defs)
  from get_by_relationships_deduplicated [OF a b]
  have "\<exists>xs. PList [PObj Order ex_order] = PList xs \<and> distinct (map obj_id xs)" by blast
  with a b c show ?thesis by blast
qed

text \<open>
  C10. A falsy relationship argument, a set or not, adds no join and raises no \<open>TypeError\<close>:
  the query is the plain \<open>select\<close> of the class. With \<open>unique\<close> false the rows then come
  through \<open>_all\<close> when the argument is \<open>None\<close> and through \<open>_all_unique\<close> otherwise, the empty
  set included.
\<close>

theorem get_by_falsy_join:
  assumes "\<not> truthy j"
  shows "prv_optional_join self q j = Inr q
     \<and> prv_query self j = Inr (select (model_class self))
     \<and> q_joins (select (model_class self)) = []
     \<and> (\<forall>m. get_by self w f v j u \<noteq> Inl (TypeError m))
     \<and> (f \<in> set (columns (model_class self)) \<longrightarrow>
          get_by self w f v j False =
            Inr (if j = PNone
                 then prv_all w ((select (model_class self))\<lparr>q_where := [(f, v)]\<rparr>)
                 else prv_all_unique w ((select (model_class self))\<lparr>q_where := [(f, v)]\<rparr>))
          \<and> get_by self w f v (PSet []) False =
              Inr (prv_all_unique w ((select (model_class self))\<lparr>q_where := [(f, v)]\<rparr>))
          \<and> get_by self w f v PNone False =
              Inr (prv_all w ((select (model_class self))\<lparr>q_where := [(f, v)]\<rparr>)))"
proof -
  have a: "prv_optional_join self q' j = Inr q'" for q'
    using assms by (simp add: prv_optional_join_def)
  then have b: "prv_query self j = Inr (select (model_class self))"
    by (simp add: prv_query_def)
  have b': "prv_query self j' = Inr (select (model_class self))" if "\<not> truthy j'" for j'
    using that by (simp add: prv_query_def prv_optional_join_def)
  have c: "get_by self w f v j u \<noteq> Inl (TypeError m)" for m
    using b by (cases u) (auto simp: get_by_def prv_get_by_def prv_one_or_none_def split: list.splits if_splits)
  have d: "get_by self w f v j' False =
            Inr (if j' = PNone
                 then prv_all w ((select (model_class self))\<lparr>q_where := [(f, v)]\<rparr>)
                 else prv_all_unique w ((select (model_class self))\<lparr>q_where := [(f, v)]\<rparr>))"
    if "f \<in> set (columns (model_class self))" "\<not> truthy j'" for j'
    using that b' [of j'] by (simp add: get_by_def prv_get_by_def select_def)
  show ?thesis
    using a [of q] b c d [of j] d [of "PSet []"] d [of PNone] assms
    by (simp add: select_def)
qed

theorem get_by_falsy_join_witness:
  "\<not> truthy (PList []) \<and> \<not> truthy (PSet [])
   \<and> get_by ex_items ex_world ''order_id'' (PUuid 101) (PList []) False
       = Inr (PList [PObj OrderItem (ex_item 102 2), PObj OrderItem (ex_item 103 3)])
   \<and> get_by ex_items ex_world ''order_id'' (PUuid 101) (PSet []) False
       = Inr (prv_all_unique ex_world ((select OrderItem)\<lparr>q_where := [(''order_id'', PUuid 101)]\<rparr>))"
proof -
  have a: "\<not> truthy (PList [])" by simp
  have c: "''order_id'' \<in> set (columns (model_class ex_items))" by (simp add: ex_items_def)
  have m: "model_class ex_items = OrderItem" by (simp add: ex_items_def)
  from get_by_falsy_join [OF a, of ex_items "select OrderItem" ex_world "''order_id''" "PUuid 101" False] c m
  have "get_by ex_items ex_world ''order_id'' (PUuid 101) (PSet []) False
       = Inr (prv_all_unique ex_world ((select OrderItem)\<lparr>q_where := [(''order_id'', PUuid 101)]\<rparr>))"
    by simp
  moreover have "get_by ex_items ex_world ''order_id'' (PUuid 101) (PList []) False
       = Inr (PList [PObj OrderItem (ex_item 102 2), PObj OrderItem (ex_item 103 3)])"
    by (simp add: ex_defs read_defs)
  ultimately show ?thesis by simp
qed

section \<open>Properties of the write path\<close>

lemma dict_of_fold:
  "map_of (fold (\<lambda>kv. AList.update (fst kv) (snd kv)) items acc) = map_of acc ++ map_of (rev items)"
proof (induction items arbitrary: acc)
  case Nil
  then show ?case by simp
next
  case (Cons kv items)
  have "map_of (AList.update (fst kv) (snd kv) acc) ++ map_of (rev items)
        = map_of acc ++ (map_of [kv] ++ map_of (rev items))"
    by (cases kv) (simp add: update_conv' map_add_def fun_eq_iff split: option.splits)
  with Cons show ?case by simp
qed

lemma map_of_dict_of: "map_of (dict_of items) = map_of (rev items)"
  by (simp add: dict_of_def dict_of_fold)

lemma dict_of_fold_distinct:
  "distinct (map fst acc) \<Longrightarrow>
   distinct (map fst (fold (\<lambda>kv. AList.update (fst kv) (snd kv)) items acc))"
  by (induction items arbitrary: acc) (simp_all add: distinct_update)

lemma distinct_dict_of: "distinct (map fst (dict_of items))"
  by (simp add: dict_of_def dict_of_fold_distinct)

lemma map_of_rev_distinct: "distinct (map fst xs) \<Longrightarrow> map_of (rev xs) = map_of xs"
proof (induction xs)
  case Nil
  then show ?case by simp
next
  case (Cons kv xs)
  then have "fst kv \<notin> dom (map_of xs)" by (simp add: dom_map_of_conv_image_fst)
  then have "map_of xs (fst kv) = None" by blast
  with Cons show ?case
    by (cases kv) (auto simp: map_add_def fun_eq_iff split: option.splits)
qed

lemma dump_items_append: "dump_items st (xs @ ys) = dump_items st xs @ dump_items st ys"
  by (induction xs) simp_all

lemma dump_items_rev: "rev (dump_items st fs) = dump_items st (rev fs)"
  by (induction fs) (simp_all add: dump_items_append)

lemma map_of_dump_items:
  "map_of (dump_items st fs) f =
     (if f \<in> set st then map_option dump_value (map_of fs f) else None)"
  by (induction fs) auto

lemma filter_None [simp]: "filter (\<lambda>kv. case None of None \<Rightarrow> True | Some ex \<Rightarrow> fst kv \<notin> set ex) xs = xs"
  by simp

lemma map_of_model_dump:
  "map_of (model_dump p None) f =
     (if f \<in> set (model_fields_set p)
      then map_option dump_value (map_of (rev (model_fields p)) f) else None)"
  by (simp add: model_dump_def map_of_dict_of dump_items_rev map_of_dump_items)

lemma distinct_model_dump: "distinct (map fst (model_dump p ex))"
  by (simp add: model_dump_def distinct_dict_of)

lemma setattr_Inr:
  "setattr m n v = Inr m' \<Longrightarrow> \<exists>k a. m = PObj k a \<and> m' = PObj k (AList.update n v a)"
  by (cases m) (auto split: if_splits)

lemma reduce_setattr:
  "reduce (\<lambda>m kv. setattr m (fst kv) (snd kv)) items (PObj k a) = Inr m' \<Longrightarrow>
   \<exists>a'. m' = PObj k a' \<and> map_of a' = map_of a ++ map_of (rev items)"
proof (induction items arbitrary: a)
  case Nil
  then show ?case by auto
next
  case (Cons kv items)
  from Cons.prems obtain m1 where s: "setattr (PObj k a) (fst kv) (snd kv) = Inr m1"
    and r: "reduce (\<lambda>m kv. setattr m (fst kv) (snd kv)) items m1 = Inr m'"
    by (cases "setattr (PObj k a) (fst kv) (snd kv)") simp_all
  from setattr_Inr [OF s] have m1: "m1 = PObj k (AList.update (fst kv) (snd kv) a)" by simp
  from Cons.IH [OF r [unfolded m1]] obtain a' where
    "m' = PObj k a'" "map_of a' = map_of (AList.update (fst kv) (snd kv) a) ++ map_of (rev items)"
    by blast
  moreover have "map_of (AList.update (fst kv) (snd kv) a) ++ map_of (rev items)
        = map_of a ++ map_of (rev (kv # items))"
    by (cases kv) (simp add: update_conv' map_add_def fun_eq_iff split: option.splits)
  ultimately show ?case by simp
qed

lemma Transactional_Inr:
  "Transactional body w = (Inr r, w') \<Longrightarrow> body w = (Inr r, w') \<and> integrity (db w')"
  by (auto simp: Transactional_def split: prod.splits sum.splits if_splits)

lemma Transactional_Inl:
  "Transactional body w = (Inl e, w') \<Longrightarrow> db w' = db w"
  by (auto simp: Transactional_def split: prod.splits sum.splits if_splits)

lemma cascade_add_other: "r_target rel \<noteq> k \<Longrightarrow> cascade_add a rel d k = d k"
  by (simp add: cascade_add_def split: option.splits pyval.splits)

lemma cascade_add_to_one: "\<not> r_to_many rel \<Longrightarrow> cascade_add a rel d = d"
  by (simp add: cascade_add_def)

lemma fold_cascade_add_own: "fold (cascade_add a) (relationships k) d k = d k"
  by (cases k) (simp_all add: cascade_add_other cascade_add_to_one)

lemma session_add_own:
  "session_add w (PObj k a) = Inr w' \<Longrightarrow> db w' k = upsert (row_of k a) (db w k)"
  by (auto simp: session_add_def fold_cascade_add_own)

lemma upsert_mem: "row \<in> set (upsert row rows)"
  by (auto simp: upsert_def has_id_def list_ex_iff)

lemmas write_defs = update_def create_def delete_def Transactional_def update_body_def create_body_def
  delete_body_def extract_attributes_from_schema_def model_dump_def dict_of_def
  session_add_def session_delete_def cascade_add_def cascade_delete_def upsert_def has_id_def row_of_def
  integrity_def pk_ok_def not_null_ok_def fk_ok_def col_def new_model_def sqlmodel_init_def
  given_values_def draw_uuid_def flush_children_def

lemma ex_update:
  "fst (update ex_orders ex_world (PObj Order ex_order) ex_status_patch)
     = Inr (PObj Order [(''id'', PUuid 101), (''creation_date'', PDatetime 7), (''status'', PStatus shipped)])"
  by (simp add: ex_defs ex_status_patch_def write_defs)


text \<open>
  C3. When \<open>update\<close> returns, it returns the instance it was given with every attribute
  that the patch sets explicitly (the fields in \<open>model_fields_set\<close>, as \<open>model_dump\<close> with
  \<open>exclude_unset\<close> gives them) assigned, and every other attribute as it was; the row of
  that instance is in the table.
\<close>

theorem update_merges_patch:
  assumes "update self w (PObj k a) p = (Inr m', w')"
  shows "\<exists>a'. m' = PObj k a'
     \<and> (\<forall>f. map_of a' f =
            (if f \<in> set (model_fields_set p) \<and> f \<in> fst ` set (model_fields p)
             then map_option dump_value (map_of (rev (model_fields p)) f)
             else map_of a f))
     \<and> row_of k a' \<in> set (db w' k)"
proof -
  from assms have b: "update_body self (PObj k a) p w = (Inr m', w')"
    unfolding update_def by (rule Transactional_Inr [THEN conjunct1])
  let ?items = "model_dump p None"
  from b obtain m1 where r: "reduce (\<lambda>m kv. setattr m (fst kv) (snd kv)) ?items (PObj k a) = Inr m1"
    by (cases "reduce (\<lambda>m kv. setattr m (fst kv) (snd kv)) ?items (PObj k a)")
       (simp_all add: update_body_def extract_attributes_from_schema_def)
  from b r obtain w1 where s: "session_add w m1 = Inr w1"
    by (cases "session_add w m1")
       (simp_all add: update_body_def extract_attributes_from_schema_def)
  from b r s have eq: "m' = m1" "w' = w1"
    by (simp_all add: update_body_def extract_attributes_from_schema_def)
  from reduce_setattr [OF r] obtain a' where a': "m1 = PObj k a'"
    "map_of a' = map_of a ++ map_of (rev ?items)" by blast
  have "map_of (rev ?items) = map_of ?items"
    by (rule map_of_rev_distinct) (rule distinct_model_dump)
  with a' have m: "map_of a' = map_of a ++ map_of ?items" by simp
  have "map_of a' f =
            (if f \<in> set (model_fields_set p) \<and> f \<in> fst ` set (model_fields p)
             then map_option dump_value (map_of (rev (model_fields p)) f)
             else map_of a f)" for f
  proof (cases "map_of (rev (model_fields p)) f")
    case None
    then have "f \<notin> fst ` set (model_fields p)"
      by (metis map_of_eq_None_iff set_rev)
    with None show ?thesis by (simp add: m map_add_def map_of_model_dump)
  next
    case (Some v)
    then have "f \<in> fst ` set (model_fields p)"
      by (metis map_of_eq_None_iff option.distinct(1) set_rev)
    with Some show ?thesis by (simp add: m map_add_def map_of_model_dump)
  qed
  moreover have "row_of k a' \<in> set (db w' k)"
    using session_add_own [of w k a' w1] s a'(1) eq by (simp add: upsert_mem)
  ultimately show ?thesis using a'(1) eq by blast
qed

theorem update_merges_patch_witness:
  "fst (update ex_orders ex_world (PObj Order ex_order) ex_status_patch)
     = Inr (PObj Order [(''id'', PUuid 101), (''creation_date'', PDatetime 7), (''status'', PStatus shipped)])
   \<and> (\<exists>a'. PObj Order [(''id'', PUuid 101), (''creation_date'', PDatetime 7), (''status'', PStatus shipped)]
           = PObj Order a'
         \<and> map_of a' ''status'' = Some (PStatus shipped)
         \<and> map_of a' ''creation_date'' = map_of ex_order ''creation_date'')"
proof -
  let ?m = "PObj Order [(''id'', PUuid 101), (''creation_date'', PDatetime 7), (''status'', PStatus shipped)]"
  have e: "fst (update ex_orders ex_world (PObj Order ex_order) ex_status_patch) = Inr ?m"
    by (rule ex_update)
  then have "update ex_orders ex_world (PObj Order ex_order) ex_status_patch
      = (Inr ?m, snd (update ex_orders ex_world (PObj Order ex_order) ex_status_patch))"
    by (metis prod.collapse)
  from update_merges_patch [OF this] obtain a' where
    "?m = PObj Order a'"
    "\<forall>f. map_of a' f =
            (if f \<in> set (model_fields_set ex_status_patch) \<and> f \<in> fst ` set (model_fields ex_status_patch)
             then map_option dump_value (map_of (rev (model_fields ex_status_patch)) f)
             else map_of ex_order f)"
    by blast
  then have "?m = PObj Order a' \<and> map_of a' ''status'' = Some (PStatus shipped)
         \<and> map_of a' ''creation_date'' = map_of ex_order ''creation_date''"
    by (simp add: ex_status_patch_def)
  then show ?thesis using e by blast
qed

lemma map_of_given_values:
  "map_of (given_values kw names) f = (if f \<in> set names then map_of kw f else None)"
proof (induction names)
  case Nil
  then show ?case by (simp add: given_values_def)
next
  case (Cons n names)
  have "given_values kw (n # names) =
      (case map_of kw n of None \<Rightarrow> [] | Some v \<Rightarrow> [(n, v)]) @ given_values kw names"
    by (simp add: given_values_def)
  with Cons show ?case by (auto simp: map_add_def split: option.splits)
qed

lemma field_default_uuid: "field_default k f = FactoryUuid4 \<longleftrightarrow> f = ''id''"
  by (simp add: field_default_def)

lemma default_of_drawn:
  "f \<noteq> ''id'' \<Longrightarrow> default_of (w\<lparr>drawn := n\<rparr>) k f = default_of w k f"
  by (cases "field_default k f") (simp_all add: default_of_def field_default_uuid)

lemma default_values_props:
  "default_values k kw fs w = (ds, w') \<Longrightarrow>
     db w' = db w \<and> uuid4 w' = uuid4 w \<and> now w' = now w
     \<and> (\<forall>f. map_of ds f = (if f \<in> set fs \<and> map_of kw f = None then default_of w k f else None))"
proof (induction fs arbitrary: w ds w')
  case Nil
  then show ?case by auto
next
  case (Cons g gs)
  show ?case
  proof (cases "map_of kw g \<noteq> None")
    case True
    with Cons.prems have "default_values k kw gs w = (ds, w')" by simp
    from Cons.IH [OF this] True show ?thesis by auto
  next
    case False
    then have g: "map_of kw g = None" by simp
    show ?thesis
    proof (cases "field_default k g")
      case NoDefault
      with Cons.prems g have "default_values k kw gs w = (ds, w')" by simp
      from Cons.IH [OF this] NoDefault g show ?thesis by (auto simp: default_of_def)
    next
      case (Default v)
      obtain ds1 w1 where r: "default_values k kw gs w = (ds1, w1)" by (cases "default_values k kw gs w")
      with Cons.prems g Default have e: "ds = (g, v) # ds1" "w' = w1" by simp_all
      from Cons.IH [OF r] e Default g show ?thesis by (auto simp: default_of_def)
    next
      case FactoryNow
      obtain ds1 w1 where r: "default_values k kw gs w = (ds1, w1)" by (cases "default_values k kw gs w")
      with Cons.prems g FactoryNow have e: "ds = (g, PDatetime (now w)) # ds1" "w' = w1" by simp_all
      from Cons.IH [OF r] e FactoryNow g show ?thesis by (auto simp: default_of_def)
    next
      case FactoryUuid4
      then have gid: "g = ''id''" by (simp add: field_default_uuid)
      let ?w1 = "w\<lparr>drawn := Suc (drawn w)\<rparr>"
      obtain ds1 w2 where r: "default_values k kw gs ?w1 = (ds1, w2)" by (cases "default_values k kw gs ?w1")
      with Cons.prems g FactoryUuid4
      have e: "ds = (g, PUuid (uuid4 w (drawn w))) # ds1" "w' = w2"
        by (simp_all add: draw_uuid_def)
      from Cons.IH [OF r] have ih: "db w2 = db w" "uuid4 w2 = uuid4 w" "now w2 = now w"
        "\<And>f. map_of ds1 f = (if f \<in> set gs \<and> map_of kw f = None then default_of ?w1 k f else None)"
        by simp_all
      have "map_of ds f = (if f \<in> set (g # gs) \<and> map_of kw f = None then default_of w k f else None)" for f
      proof (cases "f = g")
        case True
        then show ?thesis using e g FactoryUuid4 by (simp add: default_of_def)
      next
        case False
        then have "default_of ?w1 k f = default_of w k f" using gid by (simp add: default_of_drawn)
        with False e ih(4) [of f] show ?thesis by simp
      qed
      with ih e show ?thesis by simp
    qed
  qed
qed

lemma columns_not_relationships: "f \<in> set (columns k) \<Longrightarrow> f \<notin> set (map r_name (relationships k))"
  by (cases k) auto

lemma sqlmodel_init_props:
  assumes "sqlmodel_init k kw w = (a, w')"
  shows "built_from w k kw a \<and> db w' = db w \<and> uuid4 w' = uuid4 w \<and> now w' = now w"
proof -
  obtain ds w1 where d: "default_values k kw (columns k) w = (ds, w1)"
    by (cases "default_values k kw (columns k) w")
  with assms have a: "a = given_values kw (columns k) @ ds @ given_values kw (map r_name (relationships k))"
    and w: "w' = w1" by (simp_all add: sqlmodel_init_def)
  from default_values_props [OF d] have p: "db w1 = db w" "uuid4 w1 = uuid4 w" "now w1 = now w"
    "\<And>f. map_of ds f = (if f \<in> set (columns k) \<and> map_of kw f = None then default_of w k f else None)"
    by simp_all
  have "map_of a f =
        (if f \<in> set (columns k)
         then (case map_of kw f of Some v \<Rightarrow> Some v | None \<Rightarrow> default_of w k f)
         else if f \<in> set (map r_name (relationships k)) then map_of kw f
         else None)" for f
    using columns_not_relationships [of f k]
    by (simp add: a map_add_def map_of_given_values p(4) split: option.splits)
  then show ?thesis using p w by (simp add: built_from_def)
qed


lemma item_init_cong: "uuid4 w1 = uuid4 w \<Longrightarrow> item_init w1 = item_init w"
  by (simp add: item_init_def fun_eq_iff)

lemma order_items_of_props:
  "order_items_of xs w = (Inr items, w') \<Longrightarrow>
     list_all2 (item_init w) xs items \<and> db w' = db w \<and> uuid4 w' = uuid4 w \<and> now w' = now w"
proof (induction xs arbitrary: w items w')
  case Nil
  then show ?case by auto
next
  case (Cons x xs)
  from Cons.prems obtain kw where x: "x = PDict kw" by (cases x) simp_all
  obtain a w1 where i: "sqlmodel_init OrderItem kw w = (a, w1)" by (cases "sqlmodel_init OrderItem kw w")
  from Cons.prems x i obtain items1 w2 where r: "order_items_of xs w1 = (Inr items1, w2)"
    and e: "items = PObj OrderItem a # items1" "w' = w2"
    by (cases "order_items_of xs w1") (auto split: sum.splits)
  from sqlmodel_init_props [OF i] have b: "built_from w OrderItem kw a" "db w1 = db w"
    "uuid4 w1 = uuid4 w" "now w1 = now w" by simp_all
  from Cons.IH [OF r] have ih: "list_all2 (item_init w1) xs items1" "db w2 = db w1"
    "uuid4 w2 = uuid4 w1" "now w2 = now w1" by simp_all
  have "item_init w x (PObj OrderItem a)"
    using x b(1) by (auto simp: item_init_def)
  moreover have "list_all2 (item_init w) xs items1"
    using ih(1) item_init_cong [OF b(3)] by simp
  ultimately show ?case using e ih b by simp
qed


lemma new_model_other:
  assumes "k \<noteq> Order" "new_model k kw w = (Inr m, w')"
  shows "\<exists>a. m = PObj k a \<and> built_from w k kw a \<and> db w' = db w"
proof -
  obtain a w1 where i: "sqlmodel_init k kw w = (a, w1)" by (cases "sqlmodel_init k kw w")
  with assms have "m = PObj k a" "w' = w1" by (simp_all add: new_model_def)
  with sqlmodel_init_props [OF i] show ?thesis by simp
qed

lemma new_model_order:
  assumes "new_model Order kw w = (Inr m, w')"
  shows "\<exists>a0 xs items.
           m = PObj Order (AList.update ''order_items''
                 (PList (map (put_attr ''order'' (PRef Order (col a0 ''id''))) items)) a0)
           \<and> built_from w Order (AList.delete ''order_items'' kw) a0
           \<and> iterate (case map_of kw ''order_items'' of None \<Rightarrow> PList [] | Some v \<Rightarrow> v) = Some xs
           \<and> list_all2 (item_init w) xs items \<and> db w' = db w"
proof -
  let ?oi = "case map_of kw ''order_items'' of None \<Rightarrow> PList [] | Some v \<Rightarrow> v"
  obtain a0 w1 where i: "sqlmodel_init Order (AList.delete ''order_items'' kw) w = (a0, w1)"
    by (cases "sqlmodel_init Order (AList.delete ''order_items'' kw) w")
  from assms i obtain xs where it: "iterate ?oi = Some xs"
    by (cases "iterate ?oi") (simp_all add: new_model_def)
  from assms i it obtain items w2 where o: "order_items_of xs w1 = (Inr items, w2)"
    and e: "m = PObj Order (AList.update ''order_items''
                 (PList (map (put_attr ''order'' (PRef Order (col a0 ''id''))) items)) a0)" "w' = w2"
    by (cases "order_items_of xs w1") (auto simp: new_model_def split: sum.splits)
  from sqlmodel_init_props [OF i] have b: "built_from w Order (AList.delete ''order_items'' kw) a0"
    "db w1 = db w" "uuid4 w1 = uuid4 w" by simp_all
  from order_items_of_props [OF o] have p: "list_all2 (item_init w1) xs items" "db w2 = db w1"
    by simp_all
  from p(1) item_init_cong [OF b(3)] have "list_all2 (item_init w) xs items" by simp
  with e b p it show ?thesis by auto
qed

lemma map_of_row_of: "map_of (row_of k a) f = (if f \<in> set (columns k) then map_of a f else None)"
  unfolding row_of_def by (induction a) auto

lemma col_row_of: "f \<in> set (columns k) \<Longrightarrow> col (row_of k a) f = col a f"
  by (simp add: col_def map_of_row_of)

lemma id_column: "''id'' \<in> set (columns k)"
  by (cases k) simp_all

lemma id_not_null_column: "''id'' \<in> set (not_null_columns k)"
  by (cases k) simp_all

lemma integrity_not_null:
  "integrity d \<Longrightarrow> r \<in> set (d k) \<Longrightarrow> c \<in> set (not_null_columns k) \<Longrightarrow> col r c \<noteq> PNone"
  by (cases k) (auto simp: integrity_def not_null_ok_def list_all_iff)

lemma integrity_pk: "integrity d \<Longrightarrow> distinct (map (\<lambda>r. col r ''id'') (d k))"
  by (cases k) (auto simp: integrity_def pk_ok_def)

lemma create_body_eq:
  "create_body self p w =
     (case new_model (model_class self) (model_dump p None) w of
        (Inl e, w1) \<Rightarrow> (Inl e, w1)
      | (Inr model, w1) \<Rightarrow>
          (case session_add w1 model of
             Inl e \<Rightarrow> (Inl e, w1) | Inr w2 \<Rightarrow> (Inr (flushed model), w2)))"
  by (simp add: create_body_def extract_attributes_from_schema_def)

lemma create_Inr:
  assumes "create self w p = (Inr m, w')"
  shows "\<exists>m0 w1. new_model (model_class self) (model_dump p None) w = (Inr m0, w1)
           \<and> session_add w1 m0 = Inr w' \<and> m = flushed m0 \<and> integrity (db w')"
proof -
  from assms have t: "Transactional (create_body self p) w = (Inr m, w')"
    by (simp only: create_def)
  from Transactional_Inr [OF t] have b: "create_body self p w = (Inr m, w')"
    and i: "integrity (db w')" by blast+
  from b have "\<exists>m0 w1. new_model (model_class self) (model_dump p None) w = (Inr m0, w1)
           \<and> session_add w1 m0 = Inr w' \<and> m = flushed m0"
    unfolding create_body_eq by (auto split: prod.splits sum.splits)
  with i show ?thesis by blast
qed

lemma dump_items_no_set: "dump_items [] fs = []"
  by (induction fs) simp_all

lemma model_dump_no_set: "model_fields_set p = [] \<Longrightarrow> model_dump p ex = []"
  by (simp add: model_dump_def dump_items_no_set dict_of_def)

lemma created_row_in_table:
  assumes "session_add w1 (PObj k a) = Inr w'"
  shows "row_of k a \<in> set (db w' k)"
  using session_add_own [OF assms] by (simp add: upsert_mem)

lemma created_row_not_null:
  assumes "session_add w1 (PObj k a) = Inr w'" "integrity (db w')"
    and "c \<in> set (not_null_columns k)" "c \<in> set (columns k)"
  shows "col a c \<noteq> PNone"
  using integrity_not_null [OF assms(2) created_row_in_table [OF assms(1)] assms(3)] assms(4)
  by (simp add: col_row_of)

lemma new_model_obj: "new_model k kw w = (Inr m, w') \<Longrightarrow> \<exists>a. m = PObj k a"
  using new_model_other [of k kw w m w'] new_model_order [of kw w m w'] by (cases "k = Order") auto

lemma new_model_db: "new_model k kw w = (Inr m, w') \<Longrightarrow> db w' = db w"
  using new_model_other [of k kw w m w'] new_model_order [of kw w m w'] by (cases "k = Order") auto

text \<open>The flush changes the collections of an instance and nothing else.\<close>

lemma map_of_flush_children:
  "f \<noteq> r_name rel \<Longrightarrow> map_of (flush_children rel a) f = map_of a f"
  by (simp add: flush_children_def update_conv' split: option.splits pyval.splits)

lemma map_of_fold_flush_children:
  "f \<notin> set (map r_name rels) \<Longrightarrow> map_of (fold flush_children rels a) f = map_of a f"
  by (induction rels arbitrary: a) (simp_all add: map_of_flush_children)

lemma row_of_update_other:
  "n \<notin> set (columns k) \<Longrightarrow> row_of k (AList.update n v a) = row_of k a"
  unfolding row_of_def by (induction a) auto

lemma row_of_flush_children:
  "r_name rel \<notin> set (columns k) \<Longrightarrow> row_of k (flush_children rel a) = row_of k a"
  by (simp add: flush_children_def row_of_update_other split: option.splits pyval.splits)

lemma row_of_fold_flush_children:
  "\<forall>rel \<in> set rels. r_name rel \<notin> set (columns k) \<Longrightarrow>
   row_of k (fold flush_children rels a) = row_of k a"
  by (induction rels arbitrary: a) (simp_all add: row_of_flush_children)

lemma relationships_not_columns: "\<forall>rel \<in> set (relationships k). r_name rel \<notin> set (columns k)"
  by (cases k) simp_all

lemma flushed_obj:
  "flushed (PObj k a0) = PObj k (fold flush_children (relationships k) a0)"
  by simp

lemma flushed_column:
  assumes "PObj k a = flushed (PObj k a0)" "f \<in> set (columns k)"
  shows "map_of a f = map_of a0 f" "col a f = col a0 f"
proof -
  from assms(1) have a: "a = fold flush_children (relationships k) a0" by simp
  from columns_not_relationships [OF assms(2)]
  show "map_of a f = map_of a0 f" unfolding a by (rule map_of_fold_flush_children)
  then show "col a f = col a0 f" by (simp add: col_def)
qed

lemma flushed_row:
  assumes "PObj k a = flushed (PObj k a0)"
  shows "row_of k a = row_of k a0"
proof -
  from assms have a: "a = fold flush_children (relationships k) a0" by simp
  show ?thesis unfolding a using relationships_not_columns by (rule row_of_fold_flush_children)
qed

lemma flushed_other:
  assumes "PObj k a = flushed (PObj k a0)" "f \<notin> set (map r_name (relationships k))"
  shows "map_of a f = map_of a0 f"
proof -
  from assms(1) have a: "a = fold flush_children (relationships k) a0" by simp
  show ?thesis unfolding a using assms(2) by (rule map_of_fold_flush_children)
qed

lemma flushed_order:
  assumes "map_of a1 ''order_items'' = Some (PList cs)"
  shows "flushed (PObj Order a1) =
     PObj Order (AList.update ''order_items''
        (PList (map (put_attr ''order_id'' (col a1 ''id'')) cs)) a1)"
  using assms by (simp add: flush_children_def)



lemma col_update: "col (AList.update k v a) f = (if f = k then v else col a f)"
  by (simp add: col_def update_conv')

lemma item_built_of_init:
  assumes "item_init w x c"
  shows "item_built w oid x (put_attr ''order_id'' oid (put_attr ''order'' (PRef Order oid) c))"
proof -
  from assms obtain kw ia0 wi where c: "x = PDict kw" "c = PObj OrderItem ia0"
    "uuid4 wi = uuid4 w" "built_from wi OrderItem kw ia0"
    by (auto simp: item_init_def)
  let ?ia = "AList.update ''order_id'' oid (AList.update ''order'' (PRef Order oid) ia0)"
  have "map_of ?ia = (map_of ia0)(''order'' \<mapsto> PRef Order oid, ''order_id'' \<mapsto> oid)"
    by (simp add: update_conv')
  with c show ?thesis unfolding item_built_def by (simp, blast)
qed

lemma items_built_of_init:
  assumes "list_all2 (item_init w) xs items"
  shows "list_all2 (item_built w oid) xs
           (map (put_attr ''order_id'' oid) (map (put_attr ''order'' (PRef Order oid)) items))"
  using assms
  by (induction rule: list_all2_induct) (simp_all add: item_built_of_init)

lemma amount_no_default: "k \<noteq> Order \<Longrightarrow> default_of w k ''amount'' = None"
  by (simp add: default_of_def field_default_def)

lemma amount_required:
  "k \<noteq> Order \<Longrightarrow> ''amount'' \<in> set (not_null_columns k) \<and> ''amount'' \<in> set (columns k)"
  by (cases k) simp_all

text \<open>
  C7. When \<open>create\<close> returns, it returns an instance of the repository's class whose \<open>id\<close>
  is not \<open>None\<close> and whose every field is the one the payload sets explicitly or else the
  field's default (the generated UUID for \<open>id\<close>). For an \<open>Order\<close> the attribute \<open>order_items\<close>
  holds one \<open>OrderItem\<close> for each dict of the payload, in order, built the same way and
  carrying the order and its key, and the order has no further attribute. For the other
  classes the instance is the flushed one built from the payload. A payload that sets
  nothing is accepted for an \<open>Order\<close> only, and gives the defaults alone.
\<close>

theorem create_fields:
  assumes "create self w p = (Inr m, w')"
  shows "\<exists>a. m = PObj (model_class self) a
     \<and> col a ''id'' \<noteq> PNone
     \<and> (\<forall>f \<in> set (columns (model_class self)).
           map_of a f = (case map_of (model_dump p None) f of
                           Some v \<Rightarrow> Some v
                         | None \<Rightarrow> default_of w (model_class self) f))
     \<and> (model_class self \<noteq> Order \<longrightarrow>
           (\<exists>a0. built_from w (model_class self) (model_dump p None) a0
              \<and> PObj (model_class self) a = flushed (PObj (model_class self) a0)))
     \<and> (model_class self = Order \<longrightarrow>
           (\<exists>xs items.
              iterate (case map_of (model_dump p None) ''order_items'' of
                         None \<Rightarrow> PList [] | Some v \<Rightarrow> v) = Some xs
              \<and> map_of a ''order_items'' = Some (PList items)
              \<and> list_all2 (item_built w (col a ''id'')) xs items)
           \<and> (\<forall>f. f \<notin> set (columns Order) \<and> f \<noteq> ''order_items'' \<longrightarrow> map_of a f = None))
     \<and> (model_fields_set p = [] \<longrightarrow>
           model_class self = Order
           \<and> (\<forall>f. map_of a f =
                 (if f \<in> set (columns Order) then default_of w Order f
                  else if f = ''order_items'' then Some (PList [])
                  else None)))"
proof -
  let ?k = "model_class self" and ?kw = "model_dump p None"
  from create_Inr [OF assms] obtain m0 w1 where n: "new_model ?k ?kw w = (Inr m0, w1)"
    and s: "session_add w1 m0 = Inr w'" and fl: "m = flushed m0" and i: "integrity (db w')"
    by blast
  show ?thesis
  proof (cases "?k = Order")
    case False
    from new_model_other [OF False n] obtain a0 where a0: "m0 = PObj ?k a0" "built_from w ?k ?kw a0"
      by blast
    define a where "a = fold flush_children (relationships ?k) a0"
    have m: "m = PObj ?k a" and f: "PObj ?k a = flushed (PObj ?k a0)"
      using fl a0(1) by (simp_all add: a_def)
    have id: "col a ''id'' \<noteq> PNone"
      using created_row_not_null [OF s [unfolded a0(1)] i id_not_null_column id_column]
        flushed_column(2) [OF f id_column] by simp
    have c: "\<forall>f \<in> set (columns ?k).
           map_of a f = (case map_of ?kw f of Some v \<Rightarrow> Some v | None \<Rightarrow> default_of w ?k f)"
      using a0(2) flushed_column(1) [OF f] by (simp add: built_from_def)
    have ne: "model_fields_set p \<noteq> []"
    proof
      assume "model_fields_set p = []"
      from model_dump_no_set [OF this, of None] have kw: "?kw = []" .
      from amount_required [OF False] have r: "''amount'' \<in> set (not_null_columns ?k)"
        "''amount'' \<in> set (columns ?k)" by simp_all
      from a0(2) r(2) kw have "map_of a0 ''amount'' = None"
        by (simp add: built_from_def amount_no_default [OF False])
      then have "col a0 ''amount'' = PNone" by (simp add: col_def)
      with created_row_not_null [OF s [unfolded a0(1)] i r] show False by simp
    qed
    from m id c a0(2) f False ne show ?thesis by blast
  next
    case True
    with n have n': "new_model Order ?kw w = (Inr m0, w1)" by simp
    from new_model_order [OF n'] obtain a0 xs items where
      m0: "m0 = PObj Order (AList.update ''order_items''
                 (PList (map (put_attr ''order'' (PRef Order (col a0 ''id''))) items)) a0)"
      and b: "built_from w Order (AList.delete ''order_items'' ?kw) a0"
      and it: "iterate (case map_of ?kw ''order_items'' of None \<Rightarrow> PList [] | Some v \<Rightarrow> v) = Some xs"
      and l: "list_all2 (item_init w) xs items" by blast
    define oid where "oid = col a0 ''id''"
    define items1 where "items1 = map (put_attr ''order'' (PRef Order oid)) items"
    define a1 where "a1 = AList.update ''order_items'' (PList items1) a0"
    define final where "final = map (put_attr ''order_id'' oid) items1"
    define a where "a = AList.update ''order_items'' (PList final) a1"
    have m0': "m0 = PObj Order a1" using m0 by (simp add: a1_def items1_def oid_def)
    have c1: "col a1 ''id'' = oid" by (simp add: a1_def oid_def col_update)
    have "map_of a1 ''order_items'' = Some (PList items1)" by (simp add: a1_def update_conv')
    from flushed_order [OF this] fl m0' have m: "m = PObj Order a"
      by (simp only: c1 a_def final_def)
    have mo: "map_of a f = (if f = ''order_items'' then Some (PList final) else map_of a0 f)" for f
      by (simp add: a_def a1_def update_conv')
    have ca: "col a ''id'' = oid" by (simp add: col_def mo oid_def)
    have "col a1 ''id'' \<noteq> PNone"
      using created_row_not_null [OF s [unfolded m0'] i id_not_null_column id_column] .
    with c1 ca have id: "col a ''id'' \<noteq> PNone" by simp
    have c: "map_of a f = (case map_of ?kw f of Some v \<Rightarrow> Some v | None \<Rightarrow> default_of w Order f)"
      if "f \<in> set (columns Order)" for f
    proof -
      from that have ne: "f \<noteq> ''order_items''" by auto
      with b that show ?thesis by (simp add: mo built_from_def delete_conv')
    qed
    have o: "map_of a f = None" if "f \<notin> set (columns Order) \<and> f \<noteq> ''order_items''" for f
      using that b by (simp add: mo built_from_def)
    have lb: "list_all2 (item_built w (col a ''id'')) xs final"
      unfolding ca final_def items1_def using l by (rule items_built_of_init)
    have e: "map_of a f =
              (if f \<in> set (columns Order) then default_of w Order f
               else if f = ''order_items'' then Some (PList [])
               else None)" if ns: "model_fields_set p = []" for f
    proof -
      from model_dump_no_set [OF ns, of None] have kw: "?kw = []" .
      with it have "xs = []" by simp
      with l have items: "items = []" by simp
      show ?thesis
      proof (cases "f \<in> set (columns Order)")
        case True
        with c [OF True] kw show ?thesis by simp
      next
        case nc: False
        show ?thesis
        proof (cases "f = ''order_items''")
          case True
          with nc items show ?thesis by (simp add: mo final_def items1_def)
        next
          case False
          with nc o [of f] show ?thesis by simp
        qed
      qed
    qed
    have 1: "m = PObj ?k a" using m True by simp
    have 3: "\<forall>f \<in> set (columns ?k).
           map_of a f = (case map_of ?kw f of Some v \<Rightarrow> Some v | None \<Rightarrow> default_of w ?k f)"
      unfolding True using c by blast
    have 4: "?k \<noteq> Order \<longrightarrow>
           (\<exists>a0. built_from w ?k ?kw a0 \<and> PObj ?k a = flushed (PObj ?k a0))"
      using True by simp
    have "map_of a ''order_items'' = Some (PList final)" by (simp add: mo)
    with it lb have "\<exists>xs items.
              iterate (case map_of ?kw ''order_items'' of None \<Rightarrow> PList [] | Some v \<Rightarrow> v) = Some xs
              \<and> map_of a ''order_items'' = Some (PList items)
              \<and> list_all2 (item_built w (col a ''id'')) xs items" by blast
    moreover have "\<forall>f. f \<notin> set (columns Order) \<and> f \<noteq> ''order_items'' \<longrightarrow> map_of a f = None"
      using o by blast
    ultimately have 5: "?k = Order \<longrightarrow>
           (\<exists>xs items.
              iterate (case map_of ?kw ''order_items'' of None \<Rightarrow> PList [] | Some v \<Rightarrow> v) = Some xs
              \<and> map_of a ''order_items'' = Some (PList items)
              \<and> list_all2 (item_built w (col a ''id'')) xs items)
           \<and> (\<forall>f. f \<notin> set (columns Order) \<and> f \<noteq> ''order_items'' \<longrightarrow> map_of a f = None)"
      by blast
    have 6: "model_fields_set p = [] \<longrightarrow>
           ?k = Order
           \<and> (\<forall>f. map_of a f =
                 (if f \<in> set (columns Order) then default_of w Order f
                  else if f = ''order_items'' then Some (PList [])
                  else None))"
      using True e by simp
    from 1 id 3 4 5 6 show ?thesis by (intro exI [of _ a] conjI)
  qed
qed

lemma ex_create:
  "fst (create ex_orders ex_world ex_order_payload) = Inr ex_created"
  by (simp add: ex_defs ex_order_payload_def ex_created_def write_defs field_default_def)

lemma ex_create_empty:
  "fst (create ex_orders ex_world ex_empty_payload) = Inr ex_created_empty"
  by (simp add: ex_defs ex_empty_payload_def ex_created_empty_def write_defs field_default_def)

theorem create_rejected_counterexample:
  "model_fields_set ex_empty_payload = []
   \<and> fst (create ex_products ex_world ex_empty_payload) = Inl IntegrityError
   \<and> fst (create ex_items ex_world ex_empty_payload) = Inl IntegrityError"
  by (simp add: ex_defs ex_empty_payload_def write_defs field_default_def)

theorem create_fields_witness:
  "fst (create ex_orders ex_world ex_order_payload) = Inr ex_created
   \<and> (\<exists>a. ex_created = PObj Order a \<and> col a ''id'' \<noteq> PNone
          \<and> map_of a ''status'' = Some (PStatus created))
   \<and> model_fields_set ex_empty_payload = []
   \<and> fst (create ex_orders ex_world ex_empty_payload) = Inr ex_created_empty
   \<and> (\<exists>a. ex_created_empty = PObj Order a \<and> map_of a ''order_items'' = Some (PList [])
          \<and> map_of a ''status'' = Some (PStatus created))"
proof -
  have k: "model_class ex_orders = Order" by (simp add: ex_orders_def)
  have "create ex_orders ex_world ex_order_payload
      = (Inr ex_created, snd (create ex_orders ex_world ex_order_payload))"
    using ex_create by (metis prod.collapse)
  from create_fields [OF this] obtain a where
    a: "ex_created = PObj (model_class ex_orders) a" "col a ''id'' \<noteq> PNone"
    and c: "\<forall>f \<in> set (columns (model_class ex_orders)).
           map_of a f = (case map_of (model_dump ex_order_payload None) f of
                           Some v \<Rightarrow> Some v
                         | None \<Rightarrow> default_of ex_world (model_class ex_orders) f)"
    by blast
  from c k have "map_of a ''status'' = Some (PStatus created)"
    by (simp add: ex_order_payload_def model_dump_def dict_of_def default_of_def field_default_def)
  with a k have 1: "\<exists>a. ex_created = PObj Order a \<and> col a ''id'' \<noteq> PNone
          \<and> map_of a ''status'' = Some (PStatus created)" by auto
  have e: "model_fields_set ex_empty_payload = []" by (simp add: ex_empty_payload_def)
  have "create ex_orders ex_world ex_empty_payload
      = (Inr ex_created_empty, snd (create ex_orders ex_world ex_empty_payload))"
    using ex_create_empty by (metis prod.collapse)
  from create_fields [OF this] e obtain b where
    b: "ex_created_empty = PObj (model_class ex_orders) b"
    and d: "\<forall>f. map_of b f =
                 (if f \<in> set (columns Order) then default_of ex_world Order f
                  else if f = ''order_items'' then Some (PList [])
                  else None)"
    by blast
  from d have "map_of b ''order_items'' = Some (PList [])"
    "map_of b ''status'' = Some (PStatus created)"
    by (simp_all add: default_of_def field_default_def)
  with b k have 2: "\<exists>a. ex_created_empty = PObj Order a \<and> map_of a ''order_items'' = Some (PList [])
          \<and> map_of a ''status'' = Some (PStatus created)" by auto
  from 1 2 e ex_create ex_create_empty show ?thesis by blast
qed

section \<open>Looking up what was written\<close>

lemma rows_of_plain:
  "rows_of d ((select k)\<lparr>q_where := [(f, v)]\<rparr>) = map (PObj k) (filter (\<lambda>r. col r f = v) (d k))"
proof -
  have "matches [(f, v)] = (\<lambda>r. col r f = v)" by (simp add: matches_def fun_eq_iff)
  then show ?thesis by (simp add: rows_of_def select_def)
qed

lemma get_by_plain_unique:
  assumes "\<not> truthy j" "f \<in> set (columns (model_class self))"
  shows "get_by self w f v j True =
     prv_one_or_none w ((select (model_class self))\<lparr>q_where := [(f, v)]\<rparr>)"
  using assms by (simp add: get_by_def prv_query_def prv_optional_join_def prv_get_by_def select_def)

lemma filter_no_id: "\<not> has_id i rows \<Longrightarrow> filter (\<lambda>r. col r ''id'' = i) rows = []"
  by (auto simp: has_id_def list_ex_iff filter_empty_conv)

lemma joined_plain: "\<not> joined_collection ((select k)\<lparr>q_where := c\<rparr>)"
  by (simp add: joined_collection_def select_def)

lemma one_or_none_plain:
  "rows_of (db w) ((select k)\<lparr>q_where := c\<rparr>) = [x] \<Longrightarrow>
   prv_one_or_none w ((select k)\<lparr>q_where := c\<rparr>) = Inr x"
  by (simp add: prv_one_or_none_def joined_plain)

lemma get_by_id_eq:
  "get_by_id self w i j =
     (case get_by self w ''id'' i j True of
        Inl e \<Rightarrow> Inl e
      | Inr r \<Rightarrow> if r = PNone
                 then Inl (HTTPException 404 (class_name (model_class self) @ '' not found''))
                 else Inr r)"
proof (cases "get_by self w ''id'' i j True")
  case (Inl e)
  then show ?thesis by (simp add: get_by_id_def)
next
  case (Inr r)
  from get_by_unique_cases [OF Inr] have "truthy r \<longleftrightarrow> r \<noteq> PNone" by auto
  with Inr show ?thesis by (simp add: get_by_id_def)
qed

lemma get_by_id_missing:
  assumes "\<not> truthy j" "\<not> has_id i (db w (model_class self))"
  shows "get_by_id self w i j
           = Inl (HTTPException 404 (class_name (model_class self) @ '' not found''))"
proof -
  have "get_by self w ''id'' i j True = Inr PNone"
    using assms
    by (simp add: get_by_plain_unique id_column prv_one_or_none_def rows_of_plain filter_no_id)
  then show ?thesis by (simp add: get_by_id_eq)
qed

lemma get_by_id_created:
  assumes c: "create self w p = (Inr m, w')"
    and fresh: "\<not> has_id (obj_id m) (db w (model_class self))"
  shows "\<exists>a. m = PObj (model_class self) a
     \<and> get_by_id self w' (obj_id m) PNone = Inr (PObj (model_class self) (row_of (model_class self) a))
     \<and> obj_id (PObj (model_class self) (row_of (model_class self) a)) = obj_id m"
proof -
  let ?k = "model_class self"
  from create_Inr [OF c] obtain m0 w1 where n: "new_model ?k (model_dump p None) w = (Inr m0, w1)"
    and s: "session_add w1 m0 = Inr w'" and fl: "m = flushed m0" by blast
  from new_model_obj [OF n] obtain a0 where m0: "m0 = PObj ?k a0" by blast
  define a where "a = fold flush_children (relationships ?k) a0"
  have m: "m = PObj ?k a" and f: "PObj ?k a = flushed (PObj ?k a0)"
    using fl m0 by (simp_all add: a_def)
  from new_model_db [OF n] have d: "db w1 = db w" .
  let ?row = "row_of ?k a"
  have r: "?row = row_of ?k a0" using f by (rule flushed_row)
  have i: "col ?row ''id'' = col a ''id''" by (simp add: col_row_of id_column)
  from fresh m d have nf: "\<not> has_id (col ?row ''id'') (db w1 ?k)" by (simp add: i)
  from session_add_own [OF s [unfolded m0]] nf have t: "db w' ?k = db w ?k @ [?row]"
    by (simp add: upsert_def d r)
  from fresh m have "filter (\<lambda>r. col r ''id'' = col a ''id'') (db w ?k) = []"
    by (simp add: filter_no_id)
  with t i have "filter (\<lambda>r. col r ''id'' = col a ''id'') (db w' ?k) = [?row]" by simp
  then have "rows_of (db w') ((select ?k)\<lparr>q_where := [(''id'', col a ''id'')]\<rparr>) = [PObj ?k ?row]"
    by (simp add: rows_of_plain)
  then have "get_by self w' ''id'' (col a ''id'') PNone True = Inr (PObj ?k ?row)"
    by (simp add: get_by_plain_unique id_column one_or_none_plain)
  then have "get_by_id self w' (obj_id m) PNone = Inr (PObj ?k ?row)"
    by (simp add: get_by_id_eq m)
  with m i show ?thesis by simp
qed

text \<open>
  Without relationships \<open>get_by_id\<close> does what is said of it: it is \<open>get_by\<close> on \<open>id\<close> with
  \<open>unique=True\<close>, except that \<open>None\<close> becomes the \<open>HTTPException\<close> with status 404; an id that no
  row has is reported as not found; and after \<open>create\<close> has returned an instance whose id was
  not in the table before, it returns the instance of that id with the columns \<open>create\<close>
  gave it.
\<close>

lemma get_by_id_without_relationships:
  "get_by_id self w i j =
     (case get_by self w ''id'' i j True of
        Inl e \<Rightarrow> Inl e
      | Inr r \<Rightarrow> if r = PNone
                 then Inl (HTTPException 404 (class_name (model_class self) @ '' not found''))
                 else Inr r)
   \<and> (\<not> truthy j \<and> \<not> has_id i (db w (model_class self)) \<longrightarrow>
        get_by_id self w i j
          = Inl (HTTPException 404 (class_name (model_class self) @ '' not found'')))
   \<and> (\<forall>p m w'. create self w p = (Inr m, w') \<and> \<not> has_id (obj_id m) (db w (model_class self)) \<longrightarrow>
        (\<exists>a. m = PObj (model_class self) a
           \<and> get_by_id self w' (obj_id m) PNone
                = Inr (PObj (model_class self) (row_of (model_class self) a))
           \<and> obj_id (PObj (model_class self) (row_of (model_class self) a)) = obj_id m))"
  using get_by_id_eq [of self w i j] get_by_id_missing [of j i w self]
    get_by_id_created [of self w]
  by blast



section \<open>Deleting\<close>

lemma integrity_iff:
  "integrity d \<longleftrightarrow> (\<forall>k. pk_ok (d k) \<and> not_null_ok k (d k) \<and> fk_ok d k)"
proof
  assume i: "integrity d"
  show "\<forall>k. pk_ok (d k) \<and> not_null_ok k (d k) \<and> fk_ok d k"
  proof
    fix k from i show "pk_ok (d k) \<and> not_null_ok k (d k) \<and> fk_ok d k"
      by (cases k) (simp_all add: integrity_def)
  qed
next
  assume "\<forall>k. pk_ok (d k) \<and> not_null_ok k (d k) \<and> fk_ok d k"
  then show "integrity d" by (simp add: integrity_def)
qed

lemma fk_ok_item:
  "fk_ok d OrderItem \<longleftrightarrow>
     (\<forall>r \<in> set (d OrderItem).
        (col r ''order_id'' = PNone \<or> has_id (col r ''order_id'') (d Order))
        \<and> (col r ''product_id'' = PNone \<or> has_id (col r ''product_id'') (d Product)))"
  by (simp add: fk_ok_def list_all_iff)

lemma fk_ok_other: "k \<noteq> OrderItem \<Longrightarrow> fk_ok d k"
  by (cases k) (simp_all add: fk_ok_def list_all_iff)

lemma pk_ok_filter: "pk_ok rows \<Longrightarrow> pk_ok (filter P rows)"
  by (simp add: pk_ok_def distinct_map_filter)

lemma not_null_ok_filter: "not_null_ok k rows \<Longrightarrow> not_null_ok k (filter P rows)"
  by (simp add: not_null_ok_def list_all_iff)

lemma has_id_filter:
  "has_id i rows \<Longrightarrow> i \<noteq> j \<Longrightarrow> has_id i (filter (\<lambda>r. col r ''id'' \<noteq> j) rows)"
  by (auto simp: has_id_def list_ex_iff)

lemma has_id_not_null:
  "integrity d \<Longrightarrow> has_id i (d k) \<Longrightarrow> i \<noteq> PNone"
  using integrity_not_null [of d _ k "''id''"] id_not_null_column [of k]
  by (auto simp: has_id_def list_ex_iff)

lemma session_delete_order:
  assumes "has_id (col a ''id'') (db w Order)" "col a ''id'' \<noteq> PNone"
  shows "\<exists>w'. session_delete w (PObj Order a) = Inr w'
     \<and> db w' Order = filter (\<lambda>r. col r ''id'' \<noteq> col a ''id'') (db w Order)
     \<and> db w' OrderItem = filter (\<lambda>c. col c ''order_id'' \<noteq> col a ''id'') (db w OrderItem)
     \<and> db w' Product = db w Product"
  using assms by (simp add: session_delete_def cascade_delete_def Let_def)

lemma session_delete_product:
  assumes "has_id (col a ''id'') (db w Product)" "col a ''id'' \<noteq> PNone"
  shows "\<exists>w'. session_delete w (PObj Product a) = Inr w'
     \<and> db w' Product = filter (\<lambda>r. col r ''id'' \<noteq> col a ''id'') (db w Product)
     \<and> db w' OrderItem = map (unlink (col a ''id'')) (db w OrderItem)
     \<and> db w' Order = db w Order"
  using assms by (simp add: session_delete_def cascade_delete_def Let_def unlink_def [abs_def])

lemma session_delete_item:
  assumes "has_id (col a ''id'') (db w OrderItem)"
  shows "\<exists>w'. session_delete w (PObj OrderItem a) = Inr w'
     \<and> db w' OrderItem = filter (\<lambda>r. col r ''id'' \<noteq> col a ''id'') (db w OrderItem)
     \<and> db w' Product = db w Product
     \<and> db w' Order = db w Order"
  using assms by (simp add: session_delete_def cascade_delete_def Let_def)

lemma delete_commit:
  assumes "session_delete w m = Inr w'" "integrity (db w')"
  shows "delete self w m = (Inr PNone, w')"
  using assms by (simp add: delete_def Transactional_def delete_body_def)

lemma integrity_after_order:
  assumes i: "integrity d"
    and o: "d' Order = filter (\<lambda>r. col r ''id'' \<noteq> oid) (d Order)"
    and c: "d' OrderItem = filter (\<lambda>c. col c ''order_id'' \<noteq> oid) (d OrderItem)"
    and p: "d' Product = d Product"
  shows "integrity d'"
proof -
  from i have a: "\<And>k. pk_ok (d k)" "\<And>k. not_null_ok k (d k)" "fk_ok d OrderItem"
    by (simp_all add: integrity_iff)
  have "pk_ok (d' k) \<and> not_null_ok k (d' k)" for k
    using a(1) [of k] a(2) [of k] o c p by (cases k) (simp_all add: pk_ok_filter not_null_ok_filter)
  moreover have "fk_ok d' OrderItem"
    using a(3) unfolding fk_ok_item o c p by (auto intro: has_id_filter)
  ultimately show ?thesis
    unfolding integrity_iff using fk_ok_other by metis
qed

lemma integrity_after_item:
  assumes i: "integrity d"
    and c: "d' OrderItem = filter P (d OrderItem)"
    and o: "d' Order = d Order"
    and p: "d' Product = d Product"
  shows "integrity d'"
proof -
  from i have a: "\<And>k. pk_ok (d k)" "\<And>k. not_null_ok k (d k)" "fk_ok d OrderItem"
    by (simp_all add: integrity_iff)
  have "pk_ok (d' k) \<and> not_null_ok k (d' k)" for k
    using a(1) [of k] a(2) [of k] o c p by (cases k) (simp_all add: pk_ok_filter not_null_ok_filter)
  moreover have "fk_ok d' OrderItem"
    using a(3) unfolding fk_ok_item o c p by auto
  ultimately show ?thesis
    unfolding integrity_iff using fk_ok_other by metis
qed

lemma col_unlink: "col (unlink pid c) f = (if f = ''product_id'' \<and> col c f = pid then PNone else col c f)"
  by (auto simp: unlink_def col_update)

lemma integrity_after_product:
  assumes i: "integrity d"
    and p: "d' Product = filter (\<lambda>r. col r ''id'' \<noteq> pid) (d Product)"
    and c: "d' OrderItem = map (unlink pid) (d OrderItem)"
    and o: "d' Order = d Order"
  shows "integrity d'"
proof -
  from i have a: "\<And>k. pk_ok (d k)" "\<And>k. not_null_ok k (d k)" "fk_ok d OrderItem"
    by (simp_all add: integrity_iff)
  have ids: "map (\<lambda>r. col r ''id'') (map (unlink pid) rows) = map (\<lambda>r. col r ''id'') rows" for rows
    by (simp add: col_unlink)
  have nn: "not_null_ok OrderItem (map (unlink pid) rows)" if "not_null_ok OrderItem rows" for rows
    using that by (simp add: not_null_ok_def list_all_iff col_unlink)
  have pkI: "pk_ok (d' OrderItem)"
    using a(1) [of OrderItem] unfolding pk_ok_def c ids .
  have "pk_ok (d' k) \<and> not_null_ok k (d' k)" for k
  proof (cases k)
    case Product
    with a(1) [of Product] a(2) [of Product] p show ?thesis
      by (simp add: pk_ok_filter not_null_ok_filter)
  next
    case Order
    with a(1) [of Order] a(2) [of Order] o show ?thesis by simp
  next
    case OrderItem
    with pkI nn [OF a(2) [of OrderItem]] c show ?thesis by simp
  qed
  moreover have "fk_ok d' OrderItem"
    using a(3) unfolding fk_ok_item o c p by (auto simp: col_unlink intro: has_id_filter)
  ultimately show ?thesis
    unfolding integrity_iff using fk_ok_other by metis
qed


lemma get_by_plain_all:
  assumes "f \<in> set (columns (model_class self))"
  shows "get_by self w f v PNone False =
     Inr (PList (map (PObj (model_class self)) (filter (\<lambda>r. col r f = v) (db w (model_class self)))))"
  using assms
  by (simp add: get_by_def prv_query_def prv_optional_join_def prv_get_by_def prv_all_def
      rows_of_plain [symmetric] select_def)

lemma filter_same_key:
  "distinct (map f xs) \<Longrightarrow> p \<in> set xs \<Longrightarrow> filter (\<lambda>r. f r = f p) xs = [p]"
proof (induction xs)
  case Nil
  then show ?case by simp
next
  case (Cons x xs)
  show ?case
  proof (cases "x = p")
    case True
    with Cons.prems have "f p \<notin> f ` set xs" by simp
    then have "\<forall>r \<in> set xs. f r \<noteq> f p" by (metis imageI)
    then have "filter (\<lambda>r. f r = f p) xs = []" by (simp add: filter_empty_conv)
    with True show ?thesis by simp
  next
    case False
    with Cons.prems have "p \<in> set xs" "f x \<noteq> f p" by auto
    with Cons show ?thesis by simp
  qed
qed

lemma get_by_id_row:
  assumes "distinct (map (\<lambda>r. col r ''id'') (db w (model_class self)))"
    and "p \<in> set (db w (model_class self))"
  shows "get_by_id self w (col p ''id'') PNone = Inr (PObj (model_class self) p)"
proof -
  from filter_same_key [OF assms]
  have "rows_of (db w) ((select (model_class self))\<lparr>q_where := [(''id'', col p ''id'')]\<rparr>)
      = [PObj (model_class self) p]"
    by (simp add: rows_of_plain)
  then have "get_by self w ''id'' (col p ''id'') PNone True = Inr (PObj (model_class self) p)"
    by (simp add: get_by_plain_unique id_column one_or_none_plain)
  then show ?thesis by (simp add: get_by_id_eq)
qed

text \<open>
  C2. Deleting an instance that has a row, in a store that meets its constraints, commits.
  For an \<open>Order\<close> the order's row and every \<open>OrderItem\<close> row with its \<open>order_id\<close> are gone, so
  \<open>get_by("order_id", order.id)\<close> on \<open>OrderItem\<close> returns the empty list, and the products are
  untouched: each is returned by \<open>get_by_id\<close>. For a \<open>Product\<close> only its row is gone: every
  order and every order item remains, the items that referenced it with \<open>product_id\<close> set to
  \<open>None\<close>. For an \<open>OrderItem\<close> only its row is gone.
\<close>

theorem delete_cascade:
  assumes "integrity (db w)" and "has_id (col a ''id'') (db w k)"
  shows "\<exists>w'. delete self w (PObj k a) = (Inr PNone, w')
     \<and> (k = Order \<longrightarrow>
          db w' Order = filter (\<lambda>r. col r ''id'' \<noteq> col a ''id'') (db w Order)
          \<and> db w' OrderItem = filter (\<lambda>c. col c ''order_id'' \<noteq> col a ''id'') (db w OrderItem)
          \<and> db w' Product = db w Product
          \<and> (\<forall>ci. model_class ci = OrderItem \<longrightarrow>
                get_by ci w' ''order_id'' (col a ''id'') PNone False = Inr (PList []))
          \<and> (\<forall>cp. model_class cp = Product \<longrightarrow>
                (\<forall>p \<in> set (db w Product).
                   get_by_id cp w' (col p ''id'') PNone = Inr (PObj Product p))))
     \<and> (k = Product \<longrightarrow>
          db w' Product = filter (\<lambda>r. col r ''id'' \<noteq> col a ''id'') (db w Product)
          \<and> db w' Order = db w Order
          \<and> db w' OrderItem = map (unlink (col a ''id'')) (db w OrderItem)
          \<and> map (\<lambda>r. col r ''id'') (db w' OrderItem) = map (\<lambda>r. col r ''id'') (db w OrderItem))
     \<and> (k = OrderItem \<longrightarrow>
          db w' OrderItem = filter (\<lambda>r. col r ''id'' \<noteq> col a ''id'') (db w OrderItem)
          \<and> db w' Product = db w Product
          \<and> db w' Order = db w Order)"
proof -
  from has_id_not_null [OF assms] have nn: "col a ''id'' \<noteq> PNone" .
  show ?thesis
  proof (cases k)
    case Order
    from session_delete_order [OF assms(2) [unfolded Order] nn] obtain w'
      where s: "session_delete w (PObj Order a) = Inr w'"
        and o: "db w' Order = filter (\<lambda>r. col r ''id'' \<noteq> col a ''id'') (db w Order)"
        and c: "db w' OrderItem = filter (\<lambda>c. col c ''order_id'' \<noteq> col a ''id'') (db w OrderItem)"
        and p: "db w' Product = db w Product" by blast
    from integrity_after_order [OF assms(1) o c p] have i: "integrity (db w')" .
    from delete_commit [OF s i] have d: "delete self w (PObj Order a) = (Inr PNone, w')" .
    have g: "get_by ci w' ''order_id'' (col a ''id'') PNone False = Inr (PList [])"
      if "model_class ci = OrderItem" for ci
    proof -
      have "filter (\<lambda>r. col r ''order_id'' = col a ''id'') (db w' OrderItem) = []"
        by (simp add: c filter_empty_conv)
      with that show ?thesis by (simp add: get_by_plain_all)
    qed
    have r: "get_by_id cp w' (col p ''id'') PNone = Inr (PObj Product p)"
      if "model_class cp = Product" "p \<in> set (db w Product)" for cp p
      using get_by_id_row [of w' cp p] integrity_pk [OF i, of Product] that p by simp
    from d o c p g r Order show ?thesis by blast
  next
    case Product
    from session_delete_product [OF assms(2) [unfolded Product] nn] obtain w'
      where s: "session_delete w (PObj Product a) = Inr w'"
        and p: "db w' Product = filter (\<lambda>r. col r ''id'' \<noteq> col a ''id'') (db w Product)"
        and c: "db w' OrderItem = map (unlink (col a ''id'')) (db w OrderItem)"
        and o: "db w' Order = db w Order" by blast
    from integrity_after_product [OF assms(1) p c o] have i: "integrity (db w')" .
    from delete_commit [OF s i] have d: "delete self w (PObj Product a) = (Inr PNone, w')" .
    have "map (\<lambda>r. col r ''id'') (db w' OrderItem) = map (\<lambda>r. col r ''id'') (db w OrderItem)"
      by (simp add: c col_unlink)
    with d o c p Product show ?thesis by blast
  next
    case OrderItem
    from session_delete_item [OF assms(2) [unfolded OrderItem]] obtain w'
      where s: "session_delete w (PObj OrderItem a) = Inr w'"
        and c: "db w' OrderItem = filter (\<lambda>r. col r ''id'' \<noteq> col a ''id'') (db w OrderItem)"
        and p: "db w' Product = db w Product"
        and o: "db w' Order = db w Order" by blast
    from integrity_after_item [OF assms(1) c o p] have i: "integrity (db w')" .
    from delete_commit [OF s i] have d: "delete self w (PObj OrderItem a) = (Inr PNone, w')" .
    with d o c p OrderItem show ?thesis by blast
  qed
qed

lemma ex_integrity: "integrity (db ex_world)"
  by (simp add: ex_defs integrity_def pk_ok_def not_null_ok_def fk_ok_def has_id_def col_def)

theorem delete_cascade_witness:
  "integrity (db ex_world) \<and> has_id (col ex_order ''id'') (db ex_world Order)
   \<and> fst (delete ex_orders ex_world (PObj Order ex_order)) = Inr PNone
   \<and> get_by ex_items (snd (delete ex_orders ex_world (PObj Order ex_order)))
        ''order_id'' (PUuid 101) PNone False = Inr (PList [])
   \<and> get_by_id ex_products (snd (delete ex_orders ex_world (PObj Order ex_order)))
        (PUuid 100) PNone = Inr (PObj Product ex_product)"
proof -
  have h: "has_id (col ex_order ''id'') (db ex_world Order)"
    by (simp add: ex_defs has_id_def col_def)
  have mi: "model_class ex_items = OrderItem" and mp: "model_class ex_products = Product"
    by (simp_all add: ex_defs)
  have pm: "ex_product \<in> set (db ex_world Product)" by (simp add: ex_world_def ex_db_def)
  have ci: "col ex_order ''id'' = PUuid 101" "col ex_product ''id'' = PUuid 100"
    by (simp_all add: ex_defs col_def)
  from delete_cascade [OF ex_integrity h, of ex_orders] obtain w' where
    d: "delete ex_orders ex_world (PObj Order ex_order) = (Inr PNone, w')"
    and g: "\<forall>ci. model_class ci = OrderItem \<longrightarrow>
                get_by ci w' ''order_id'' (col ex_order ''id'') PNone False = Inr (PList [])"
    and r: "\<forall>cp. model_class cp = Product \<longrightarrow>
                (\<forall>p \<in> set (db ex_world Product).
                   get_by_id cp w' (col p ''id'') PNone = Inr (PObj Product p))"
    by blast
  from g mi have "get_by ex_items w' ''order_id'' (col ex_order ''id'') PNone False = Inr (PList [])"
    by blast
  moreover from r mp pm have "get_by_id ex_products w' (col ex_product ''id'') PNone
      = Inr (PObj Product ex_product)" by blast
  ultimately show ?thesis using d h ex_integrity ci by simp
qed

section \<open>References of the order items\<close>

lemma refs_valid_fk: "refs_valid d \<longleftrightarrow> fk_ok d OrderItem"
  by (simp add: refs_valid_def fk_ok_item list_all_iff)

lemma integrity_refs_valid: "integrity d \<Longrightarrow> refs_valid d"
  by (simp add: refs_valid_fk integrity_iff)

lemma Transactional_db:
  "db (snd (Transactional body w)) = db w \<or> integrity (db (snd (Transactional body w)))"
  by (auto simp: Transactional_def split: prod.splits sum.splits)

lemma Transactional_refs_valid:
  "refs_valid (db w) \<Longrightarrow> refs_valid (db (snd (Transactional body w)))"
  using Transactional_db [of body w] integrity_refs_valid by auto

lemma upsert_set:
  "r \<in> set (upsert row rows) \<Longrightarrow> r = row \<or> (r \<in> set rows \<and> col r ''id'' \<noteq> col row ''id'')"
  by (auto simp: upsert_def has_id_def list_ex_iff split: if_splits)

lemma has_id_upsert: "has_id i rows \<Longrightarrow> has_id i (upsert row rows)"
proof -
  assume "has_id i rows"
  then obtain r where r: "r \<in> set rows" "col r ''id'' = i" by (auto simp: has_id_def list_ex_iff)
  show ?thesis
  proof (cases "has_id (col row ''id'') rows")
    case False
    with r show ?thesis by (auto simp: upsert_def has_id_def list_ex_iff)
  next
    case True
    let ?g = "\<lambda>r. if col r ''id'' = col row ''id'' then row else r"
    from r(1) have "?g r \<in> ?g ` set rows" by (rule imageI)
    then have "?g r \<in> set (map ?g rows)" by (simp only: set_map)
    moreover have "col (?g r) ''id'' = i" using r(2) by simp
    ultimately have "has_id i (map ?g rows)" unfolding has_id_def list_ex_iff by blast
    with True show ?thesis by (simp add: upsert_def)
  qed
qed

lemma has_id_upsert_self: "has_id (col row ''id'') (upsert row rows)"
  using upsert_mem [of row rows] by (auto simp: has_id_def list_ex_iff)

lemma has_id_add_children: "has_id i rows \<Longrightarrow> has_id i (add_children rel pid cs rows)"
proof (induction cs arbitrary: rows)
  case Nil
  then show ?case by simp
next
  case (Cons c cs)
  then show ?case by (cases c) (simp_all add: has_id_upsert)
qed

lemma child_row_id:
  "r_fk rel \<noteq> ''id'' \<Longrightarrow> col (AList.update (r_fk rel) pid (row_of k ca)) ''id'' = col ca ''id''"
  by (simp add: col_update col_row_of id_column)

lemma add_children_has:
  "PObj k' ca \<in> set cs \<Longrightarrow> r_fk rel \<noteq> ''id'' \<Longrightarrow>
   has_id (col ca ''id'') (add_children rel pid cs rows)"
proof (induction cs arbitrary: rows)
  case Nil
  then show ?case by simp
next
  case (Cons c cs)
  show ?case
  proof (cases "c = PObj k' ca")
    case True
    have "has_id (col ca ''id'') (upsert (AList.update (r_fk rel) pid (row_of (r_target rel) ca)) rows)"
      using has_id_upsert_self [of "AList.update (r_fk rel) pid (row_of (r_target rel) ca)" rows]
      by (simp add: child_row_id Cons.prems(2))
    then show ?thesis using True by (simp add: has_id_add_children)
  next
    case False
    with Cons.prems have "PObj k' ca \<in> set cs" by simp
    from Cons.IH [OF this Cons.prems(2)] show ?thesis by (cases c) simp_all
  qed
qed

lemma add_children_fk:
  assumes "r_fk rel \<noteq> ''id''"
    and "\<forall>r \<in> set rows. col r ''id'' \<in> S \<longrightarrow> col r (r_fk rel) = pid"
  shows "\<forall>r \<in> set (add_children rel pid cs rows).
           col r ''id'' \<in> S \<union> {col ca ''id'' |k' ca. PObj k' ca \<in> set cs} \<longrightarrow> col r (r_fk rel) = pid"
  using assms(2)
proof (induction cs arbitrary: rows S)
  case Nil
  then show ?case by simp
next
  case (Cons c cs)
  show ?case
  proof (cases "\<exists>k' ca. c = PObj k' ca")
    case False
    then have e: "add_children rel pid (c # cs) rows = add_children rel pid cs rows"
      by (cases c) simp_all
    from False have "{col ca ''id'' |k' ca. PObj k' ca \<in> set (c # cs)}
        = {col ca ''id'' |k' ca. PObj k' ca \<in> set cs}" by auto
    with Cons.IH [OF Cons.prems] e show ?thesis by simp
  next
    case True
    then obtain k' ca where c: "c = PObj k' ca" by blast
    let ?row = "AList.update (r_fk rel) pid (row_of (r_target rel) ca)"
    have rid: "col ?row ''id'' = col ca ''id''" by (simp add: child_row_id assms(1))
    have rfk: "col ?row (r_fk rel) = pid" by (simp add: col_update)
    have "\<forall>r \<in> set (upsert ?row rows). col r ''id'' \<in> S \<union> {col ca ''id''} \<longrightarrow> col r (r_fk rel) = pid"
      using Cons.prems rid rfk by (auto dest!: upsert_set)
    from Cons.IH [OF this]
    have m: "\<forall>r \<in> set (add_children rel pid cs (upsert ?row rows)).
           col r ''id'' \<in> (S \<union> {col ca ''id''}) \<union> {col ca ''id'' |k' ca. PObj k' ca \<in> set cs}
             \<longrightarrow> col r (r_fk rel) = pid" .
    have q: "(S \<union> {col ca ''id''}) \<union> {col ca ''id'' |k' ca. PObj k' ca \<in> set cs}
        = S \<union> {col ca ''id'' |k' ca. PObj k' ca \<in> set (c # cs)}"
      using c by auto
    have e: "add_children rel pid (c # cs) rows = add_children rel pid cs (upsert ?row rows)"
      using c by simp
    from m show ?thesis unfolding e q .
  qed
qed

lemma session_add_order:
  assumes "session_add w1 (PObj Order a) = Inr w'" "map_of a ''order_items'' = Some (PList items)"
  shows "db w' Order = upsert (row_of Order a) (db w1 Order)"
    and "db w' OrderItem =
          add_children (hd (relationships Order)) (col a ''id'') items (db w1 OrderItem)"
  using assms by (auto simp: session_add_def cascade_add_def)

lemma created_order_items:
  assumes "session_add w1 (PObj Order a) = Inr w'" "map_of a ''order_items'' = Some (PList items)"
  shows "has_id (col a ''id'') (db w' Order)
     \<and> (\<forall>ca. PObj OrderItem ca \<in> set items \<longrightarrow>
           has_id (col ca ''id'') (db w' OrderItem)
           \<and> (\<forall>r \<in> set (db w' OrderItem). col r ''id'' = col ca ''id'' \<longrightarrow> col r ''order_id'' = col a ''id''))"
proof -
  let ?rel = "hd (relationships Order)"
  have fk: "r_fk ?rel = ''order_id''" "r_fk ?rel \<noteq> ''id''" by simp_all
  note t = session_add_order [OF assms]
  have "has_id (col (row_of Order a) ''id'') (db w' Order)"
    unfolding t(1) by (rule has_id_upsert_self)
  then have 1: "has_id (col a ''id'') (db w' Order)" by (simp add: col_row_of)
  have 2: "has_id (col ca ''id'') (db w' OrderItem)" if "PObj OrderItem ca \<in> set items" for ca
    unfolding t(2) using that fk(2) by (rule add_children_has)
  have "\<forall>r \<in> set (db w1 OrderItem). col r ''id'' \<in> {} \<longrightarrow> col r (r_fk ?rel) = col a ''id''" by simp
  from add_children_fk [OF fk(2) this, of items]
  have 3: "col r ''order_id'' = col a ''id''"
    if "PObj OrderItem ca \<in> set items" "r \<in> set (db w' OrderItem)" "col r ''id'' = col ca ''id''" for r ca
    using that unfolding t(2) fk(1) by auto
  from 1 2 3 show ?thesis by blast
qed


lemma put_attr_obj:
  "put_attr n v c = PObj k a \<Longrightarrow> \<exists>a0. c = PObj k a0 \<and> a = AList.update n v a0"
  by (cases c) auto

lemma flushed_collection:
  assumes "PObj Order a = flushed (PObj Order a1)"
    and "map_of a ''order_items'' = Some (PList items)"
  shows "\<exists>cs. map_of a1 ''order_items'' = Some (PList cs)
           \<and> items = map (put_attr ''order_id'' (col a1 ''id'')) cs"
proof (cases "\<exists>cs. map_of a1 ''order_items'' = Some (PList cs)")
  case True
  then obtain cs where cs: "map_of a1 ''order_items'' = Some (PList cs)" ..
  from assms(1) flushed_order [OF cs]
  have "a = AList.update ''order_items'' (PList (map (put_attr ''order_id'' (col a1 ''id'')) cs)) a1"
    by simp
  with assms(2) have "items = map (put_attr ''order_id'' (col a1 ''id'')) cs"
    by (simp add: update_conv')
  with cs show ?thesis by blast
next
  case False
  then have "flush_children (hd (relationships Order)) a1 = a1"
    by (auto simp: flush_children_def split: option.splits pyval.splits)
  with assms(1) have "a = a1" by simp
  with assms(2) False show ?thesis by simp
qed

text \<open>
  C9. The two references of an order item are nullable. What every \<open>create\<close>, \<open>update\<close> and
  \<open>delete\<close> keeps is that each reference that is present is the id of a row of the store;
  and the items that \<open>create\<close> persists with an \<open>Order\<close> carry the id of that order, whose
  row is in the store.
\<close>

theorem references_nullable_valid:
  assumes "refs_valid (db w)"
  shows "refs_valid (db (snd (create self w p)))
     \<and> refs_valid (db (snd (update self w m p)))
     \<and> refs_valid (db (snd (delete self w m)))
     \<and> (\<forall>a w' items.
           create self w p = (Inr (PObj Order a), w')
           \<and> map_of a ''order_items'' = Some (PList items) \<longrightarrow>
             has_id (col a ''id'') (db w' Order)
             \<and> (\<forall>ca. PObj OrderItem ca \<in> set items \<longrightarrow>
                   has_id (col ca ''id'') (db w' OrderItem)
                   \<and> (\<forall>r \<in> set (db w' OrderItem).
                         col r ''id'' = col ca ''id'' \<longrightarrow> col r ''order_id'' = col a ''id'')))"
proof -
  have 1: "refs_valid (db (snd (create self w p)))"
    unfolding create_def using assms by (rule Transactional_refs_valid)
  have 2: "refs_valid (db (snd (update self w m p)))"
    unfolding update_def using assms by (rule Transactional_refs_valid)
  have 3: "refs_valid (db (snd (delete self w m)))"
    unfolding delete_def using assms by (rule Transactional_refs_valid)
  have 4: "has_id (col a ''id'') (db w' Order)
             \<and> (\<forall>ca. PObj OrderItem ca \<in> set items \<longrightarrow>
                   has_id (col ca ''id'') (db w' OrderItem)
                   \<and> (\<forall>r \<in> set (db w' OrderItem).
                         col r ''id'' = col ca ''id'' \<longrightarrow> col r ''order_id'' = col a ''id''))"
    if c: "create self w p = (Inr (PObj Order a), w')"
      and o: "map_of a ''order_items'' = Some (PList items)" for a w' items
  proof -
    from create_Inr [OF c] obtain m0 w1 where s: "session_add w1 m0 = Inr w'"
      and fl: "PObj Order a = flushed m0" by blast
    from fl obtain a1 where m0: "m0 = PObj Order a1" by (cases m0) auto
    from flushed_collection [OF fl [unfolded m0] o] obtain cs where
      cs: "map_of a1 ''order_items'' = Some (PList cs)"
        "items = map (put_attr ''order_id'' (col a1 ''id'')) cs" by blast
    have i: "col a ''id'' = col a1 ''id''"
      using fl [unfolded m0] id_column by (rule flushed_column(2))
    note t = created_order_items [OF s [unfolded m0] cs(1)]
    have "has_id (col ca ''id'') (db w' OrderItem)
          \<and> (\<forall>r \<in> set (db w' OrderItem).
                col r ''id'' = col ca ''id'' \<longrightarrow> col r ''order_id'' = col a ''id'')"
      if "PObj OrderItem ca \<in> set items" for ca
    proof -
      from that cs(2) obtain c0 where c0: "c0 \<in> set cs"
        "put_attr ''order_id'' (col a1 ''id'') c0 = PObj OrderItem ca" by auto
      from put_attr_obj [OF c0(2)] obtain ca1 where
        ca1: "c0 = PObj OrderItem ca1" "ca = AList.update ''order_id'' (col a1 ''id'') ca1" by blast
      have "col ca ''id'' = col ca1 ''id''" by (simp add: ca1(2) col_update)
      with t c0(1) ca1(1) i show ?thesis by simp
    qed
    with t i show ?thesis by simp
  qed
  from 1 2 3 4 show ?thesis by blast
qed

lemma ex_create_item:
  "fst (create ex_items ex_world ex_item_payload) = Inr ex_created_item"
  by (simp add: ex_defs ex_item_payload_def ex_created_item_def write_defs field_default_def)

lemma ex_create_item_rows:
  "db (snd (create ex_items ex_world ex_item_payload)) OrderItem
     = [ex_item 102 2, ex_item 103 3,
        [(''amount'', PInt 1), (''product_id'', PUuid 100), (''id'', PUuid 104)]]"
  by (simp add: ex_defs ex_item_payload_def write_defs field_default_def)

theorem order_item_without_order_counterexample:
  "refs_present (db ex_world)
   \<and> fst (create ex_items ex_world ex_item_payload) = Inr ex_created_item
   \<and> db (snd (create ex_items ex_world ex_item_payload)) OrderItem
       = [ex_item 102 2, ex_item 103 3,
          [(''amount'', PInt 1), (''product_id'', PUuid 100), (''id'', PUuid 104)]]
   \<and> col [(''amount'', PInt 1), (''product_id'', PUuid 100), (''id'', PUuid 104)] ''order_id'' = PNone
   \<and> \<not> refs_present (db (snd (create ex_items ex_world ex_item_payload)))"
proof -
  have "refs_present (db ex_world)"
    by (simp add: refs_present_def ex_defs has_id_def col_def)
  moreover have "\<not> refs_present (db (snd (create ex_items ex_world ex_item_payload)))"
    by (simp add: refs_present_def ex_create_item_rows col_def ex_item_def)
  ultimately show ?thesis
    by (simp add: ex_create_item ex_create_item_rows) (simp add: col_def)
qed

lemma ex_create_rows:
  "db (snd (create ex_orders ex_world ex_order_payload)) OrderItem
     = [ex_item 102 2, ex_item 103 3,
        [(''amount'', PInt 2), (''product_id'', PUuid 100), (''id'', PUuid 105),
         (''order_id'', PUuid 104)]]"
  by (simp add: ex_defs ex_order_payload_def write_defs field_default_def)

theorem references_nullable_valid_witness:
  "refs_valid (db ex_world)
   \<and> refs_valid (db (snd (create ex_orders ex_world ex_order_payload)))
   \<and> fst (create ex_orders ex_world ex_order_payload) = Inr ex_created
   \<and> db (snd (create ex_orders ex_world ex_order_payload)) OrderItem
     = [ex_item 102 2, ex_item 103 3,
        [(''amount'', PInt 2), (''product_id'', PUuid 100), (''id'', PUuid 105),
         (''order_id'', PUuid 104)]]
   \<and> has_id (PUuid 104) (db (snd (create ex_orders ex_world ex_order_payload)) Order)"
proof -
  let ?w' = "snd (create ex_orders ex_world ex_order_payload)"
  let ?a = "[(''id'', PUuid 104), (''creation_date'', PDatetime 7), (''status'', PStatus created),
     (''order_items'', PList [PObj OrderItem
        [(''amount'', PInt 2), (''product_id'', PUuid 100), (''id'', PUuid 105),
         (''order'', PRef Order (PUuid 104)), (''order_id'', PUuid 104)]])]"
  have v: "refs_valid (db ex_world)" using ex_integrity by (rule integrity_refs_valid)
  have c: "create ex_orders ex_world ex_order_payload = (Inr (PObj Order ?a), ?w')"
    using ex_create by (metis prod.collapse ex_created_def)
  have o: "map_of ?a ''order_items'' = Some (PList [PObj OrderItem
        [(''amount'', PInt 2), (''product_id'', PUuid 100), (''id'', PUuid 105),
         (''order'', PRef Order (PUuid 104)), (''order_id'', PUuid 104)]])" by simp
  note t = references_nullable_valid [OF v, of ex_orders ex_order_payload]
  from t have "refs_valid (db ?w')" by blast
  moreover from t c o have "has_id (col ?a ''id'') (db ?w' Order)" by blast
  then have "has_id (PUuid 104) (db ?w' Order)" by (simp add: col_def)
  ultimately show ?thesis using v ex_create ex_create_rows by simp
qed

end
